theory Spec2Isabelle
  imports
    Main
    "HOL-Library.Word"
    "HOL-Library.Char_ord"
    "HOL-Library.List_Lexorder"
    "HOL-Library.Sublist"
begin

section \<open>PhysicalNetwork: data model\<close>

text \<open>
  A shallow embedding of \<^verbatim>\<open>server/PhysicalNetwork.cpp\<close>. The object's fields are a
  record that every operation takes and returns. The three collaborators
  (\<^verbatim>\<open>RouteController\<close>, \<^verbatim>\<open>SockDiag\<close> and the \<^verbatim>\<open>Delegate\<close>) are outside the file:
  every call to one of them is an entry of an event log, and the value it returns is
  read from an oracle that sees the whole log so far, so a collaborator may answer
  differently each time it is called. \<^verbatim>\<open>ALOGE\<close> lines are not modelled.
\<close>

text \<open>
  Modelled from the spec: the \<^verbatim>\<open>Permission\<close> enumeration is declared in a header that
  is not part of the sources; the spec gives the levels NONE, NETWORK and SYSTEM. The
  code below only compares permissions for equality and hands them on.
\<close>

datatype Permission = PERMISSION_NONE | PERMISSION_NETWORK | PERMISSION_SYSTEM

type_synonym netid = "32 word"  \<comment> \<open>\<^verbatim>\<open>unsigned\<close>\<close>

type_synonym int32_t = "32 word"  \<comment> \<open>read through \<^term>\<open>sint\<close>\<close>

text \<open>
  Modelled from the spec: \<^verbatim>\<open>UidRanges\<close> and \<^verbatim>\<open>UidRangeMap\<close> are declared in headers
  that are not part of the sources. The spec describes a UID range as an inclusive
  interval of user ids and the map as going from a sub-priority to the set of ranges
  registered at it.
\<close>

type_synonym UidRanges = "(32 word \<times> 32 word) set"

type_synonym UidRangeMap = "int32_t \<rightharpoonup> UidRanges"

text \<open>\<^verbatim>\<open>RouteController::TableType\<close>; this file only uses \<^verbatim>\<open>INTERFACE\<close>.\<close>

datatype TableType = INTERFACE

text \<open>
  One constructor for every collaborator function this file calls, with the arguments
  of the call: the static functions of \<^verbatim>\<open>RouteController\<close>, the two methods of
  \<^verbatim>\<open>SockDiag\<close>, and the two methods of \<^verbatim>\<open>PhysicalNetwork::Delegate\<close>.
\<close>

datatype Call =
    AddInterfaceToDefaultNetwork string Permission
  | RemoveInterfaceFromDefaultNetwork string Permission
  | ModifyPhysicalNetworkPermission netid string Permission Permission bool
  | AddRoute string string string TableType int int
  | RemoveRoute string string string TableType int
  | AddInterfaceToPhysicalNetwork netid string Permission UidRangeMap bool
  | RemoveInterfaceFromPhysicalNetwork netid string Permission UidRangeMap bool
  | AddUsersToPhysicalNetwork netid string UidRangeMap bool
  | RemoveUsersFromPhysicalNetwork netid string UidRangeMap bool
  | SockDiagOpen
  | SockDiagDestroySocketsLackingPermission netid Permission bool
  | AddFallthrough string Permission
  | RemoveFallthrough string Permission

text \<open>An event is a call with the value it returned (\<^verbatim>\<open>open\<close>: 1 for true, 0 for false).\<close>

type_synonym Event = "Call \<times> int"

text \<open>
  What the file takes from outside: the three sub-priority constants of
  \<^verbatim>\<open>UidRanges.h\<close>, the inherited check \<^verbatim>\<open>Network::canAddUidRanges\<close> (a \<^verbatim>\<open>const\<close>
  method over the object's range map, whose policy the spec leaves open), the value
  each collaborator call returns, and whether \<^verbatim>\<open>SockDiag::open\<close> succeeds.
\<close>

record Externals =
  SUB_PRIORITY_HIGHEST :: int32_t
  SUB_PRIORITY_LOWEST :: int32_t
  SUB_PRIORITY_NO_DEFAULT :: int32_t
  canAddUidRanges :: "UidRangeMap \<Rightarrow> UidRanges \<Rightarrow> bool"
  collaborator :: "Event list \<Rightarrow> Call \<Rightarrow> int"
  sockDiagOpens :: "Event list \<Rightarrow> bool"

text \<open>
  The fields of the object (\<^verbatim>\<open>mNetId\<close>, \<^verbatim>\<open>mInterfaces\<close> and \<^verbatim>\<open>mUidRangeMap\<close> are
  inherited from \<^verbatim>\<open>Network\<close>). \<^verbatim>\<open>mInterfaces\<close> is a \<^verbatim>\<open>std::set<std::string>\<close>: the
  list holds its elements in the order a range-for visits them, ascending and without
  duplicates. \<^verbatim>\<open>mDelegate\<close> is one of the collaborators.
\<close>

record PhysicalNetwork =
  mNetId :: netid
  mInterfaces :: "string list"
  mUidRangeMap :: UidRangeMap
  mPermission :: Permission
  mIsDefault :: bool
  mIsLocalNetwork :: bool

text \<open>\<^verbatim>\<open>errno\<close> values of Linux, returned negated.\<close>

definition EINVAL :: int where
  "EINVAL = 22"

definition EBADFD :: int where
  "EBADFD = 77"

section \<open>Inherited members of Network\<close>

text \<open>\<^verbatim>\<open>hasInterface\<close>: a lookup in the set.\<close>

definition hasInterface :: "PhysicalNetwork \<Rightarrow> string \<Rightarrow> bool" where
  "hasInterface s interface = (interface \<in> set (mInterfaces s))"

text \<open>
  Modelled from the spec: \<^verbatim>\<open>Network::addToUidRangeMap\<close> is not part of the sources.
  The spec: it inserts or merges the ranges under that sub-priority.
\<close>

definition addToUidRangeMap :: "UidRanges \<Rightarrow> int32_t \<Rightarrow> PhysicalNetwork \<Rightarrow> PhysicalNetwork" where
  "addToUidRangeMap uidRanges subPriority s =
     s\<lparr>mUidRangeMap := (mUidRangeMap s)(subPriority \<mapsto>
          (case mUidRangeMap s subPriority of
             None \<Rightarrow> uidRanges
           | Some existing \<Rightarrow> existing \<union> uidRanges))\<rparr>"

text \<open>
  Modelled from the spec: \<^verbatim>\<open>Network::removeFromUidRangeMap\<close> is not part of the
  sources. The spec: it removes the ranges, dropping the sub-priority entry entirely if
  it becomes empty.
\<close>

definition removeFromUidRangeMap :: "UidRanges \<Rightarrow> int32_t \<Rightarrow> PhysicalNetwork \<Rightarrow> PhysicalNetwork" where
  "removeFromUidRangeMap uidRanges subPriority s =
     (case mUidRangeMap s subPriority of
        None \<Rightarrow> s
      | Some existing \<Rightarrow>
          if existing - uidRanges = {}
          then s\<lparr>mUidRangeMap := (mUidRangeMap s)(subPriority := None)\<rparr>
          else s\<lparr>mUidRangeMap := (mUidRangeMap s)(subPriority \<mapsto> existing - uidRanges)\<rparr>)"

section \<open>Calling a collaborator\<close>

text \<open>A call asks the oracle for the result and appends the event to the log.\<close>

definition invoke :: "Externals \<Rightarrow> Call \<Rightarrow> Event list \<Rightarrow> int \<times> Event list" where
  "invoke x c tr = (collaborator x tr c, tr @ [(c, collaborator x tr c)])"

text \<open>
  The loop \<^verbatim>\<open>for (const std::string& interface : mInterfaces) { ... }\<close> whose body
  leaves the function with \<^verbatim>\<open>return ret\<close> as soon as a step gives a non-zero
  \<^verbatim>\<open>ret\<close>. The body is a function from the interface and the log to the value it would
  return (0: go on) and the new log.
\<close>

fun forEachInterface ::
  "(string \<Rightarrow> Event list \<Rightarrow> int \<times> Event list) \<Rightarrow> string list \<Rightarrow> Event list \<Rightarrow> int \<times> Event list" where
  "forEachInterface body [] tr = (0, tr)"
| "forEachInterface body (interface # rest) tr =
     (case body interface tr of
        (ret, tr1) \<Rightarrow> if ret \<noteq> 0 then (ret, tr1) else forEachInterface body rest tr1)"

section \<open>The file's functions\<close>

text \<open>\<^verbatim>\<open>addToDefault\<close> (lines 30 to 40).\<close>

definition addToDefault ::
  "Externals \<Rightarrow> netid \<Rightarrow> string \<Rightarrow> Permission \<Rightarrow> Event list \<Rightarrow> int \<times> Event list" where
  "addToDefault x netId interface permission tr =
     (case invoke x (AddInterfaceToDefaultNetwork interface permission) tr of
        (ret, tr1) \<Rightarrow>
          if ret \<noteq> 0 then (ret, tr1)
          else (case invoke x (AddFallthrough interface permission) tr1 of
                  (ret2, tr2) \<Rightarrow> if ret2 \<noteq> 0 then (ret2, tr2) else (0, tr2)))"

text \<open>\<^verbatim>\<open>removeFromDefault\<close> (lines 42 to 53).\<close>

definition removeFromDefault ::
  "Externals \<Rightarrow> netid \<Rightarrow> string \<Rightarrow> Permission \<Rightarrow> Event list \<Rightarrow> int \<times> Event list" where
  "removeFromDefault x netId interface permission tr =
     (case invoke x (RemoveInterfaceFromDefaultNetwork interface permission) tr of
        (ret, tr1) \<Rightarrow>
          if ret \<noteq> 0 then (ret, tr1)
          else (case invoke x (RemoveFallthrough interface permission) tr1 of
                  (ret2, tr2) \<Rightarrow> if ret2 \<noteq> 0 then (ret2, tr2) else (0, tr2)))"


text \<open>\<^verbatim>\<open>destroySocketsLackingPermission\<close> (lines 72 to 87).\<close>

definition destroySocketsLackingPermission ::
  "Externals \<Rightarrow> PhysicalNetwork \<Rightarrow> Permission \<Rightarrow> Event list \<Rightarrow> int \<times> Event list" where
  "destroySocketsLackingPermission x s permission tr =
     (if permission = PERMISSION_NONE then (0, tr)
      else if \<not> sockDiagOpens x tr then (- EBADFD, tr @ [(SockDiagOpen, 0)])
      else (case invoke x (SockDiagDestroySocketsLackingPermission (mNetId s) permission True)
                   (tr @ [(SockDiagOpen, 1)]) of
              (ret, tr1) \<Rightarrow> if ret \<noteq> 0 then (ret, tr1) else (0, tr1)))"

text \<open>
  \<^verbatim>\<open>invalidateRouteCache\<close> (lines 89 to 105): for each of the two destinations a throw
  route is added and removed; both results are cast to \<^verbatim>\<open>void\<close>.
\<close>

definition invalidateRouteCache_dst :: "Externals \<Rightarrow> string \<Rightarrow> string \<Rightarrow> Event list \<Rightarrow> Event list" where
  "invalidateRouteCache_dst x interface dst tr =
     (let priority = 100000;
          tr1 = snd (invoke x (AddRoute interface dst ''throw'' INTERFACE 0 priority) tr)
      in snd (invoke x (RemoveRoute interface dst ''throw'' INTERFACE priority) tr1))"

definition invalidateRouteCache :: "Externals \<Rightarrow> string \<Rightarrow> Event list \<Rightarrow> Event list" where
  "invalidateRouteCache x interface tr =
     fold (invalidateRouteCache_dst x interface) [''0.0.0.0/0'', ''::/0''] tr"

text \<open>The body of the first loop of \<^verbatim>\<open>setPermission\<close> (lines 117 to 125).\<close>

definition setPermission_modify ::
  "Externals \<Rightarrow> PhysicalNetwork \<Rightarrow> Permission \<Rightarrow> string \<Rightarrow> Event list \<Rightarrow> int \<times> Event list" where
  "setPermission_modify x s permission interface tr =
     (case invoke x (ModifyPhysicalNetworkPermission (mNetId s) interface (mPermission s)
                       permission (mIsLocalNetwork s)) tr of
        (ret, tr1) \<Rightarrow>
          if ret \<noteq> 0 then (ret, tr1) else (0, invalidateRouteCache x interface tr1))"

text \<open>The body of its second loop (lines 127 to 134).\<close>

definition setPermission_default ::
  "Externals \<Rightarrow> PhysicalNetwork \<Rightarrow> Permission \<Rightarrow> string \<Rightarrow> Event list \<Rightarrow> int \<times> Event list" where
  "setPermission_default x s permission interface tr =
     (case addToDefault x (mNetId s) interface permission tr of
        (ret, tr1) \<Rightarrow>
          if ret \<noteq> 0 then (ret, tr1)
          else (case removeFromDefault x (mNetId s) interface (mPermission s) tr1 of
                  (ret2, tr2) \<Rightarrow> if ret2 \<noteq> 0 then (ret2, tr2) else (0, tr2)))"

text \<open>
  \<^verbatim>\<open>setPermission\<close> (lines 107 to 142). Both calls of
  \<^verbatim>\<open>destroySocketsLackingPermission\<close> are statements: the value they return is dropped.
\<close>

definition setPermission ::
  "Externals \<Rightarrow> Permission \<Rightarrow> PhysicalNetwork \<Rightarrow> Event list \<Rightarrow> int \<times> PhysicalNetwork \<times> Event list" where
  "setPermission x permission s tr =
     (if permission = mPermission s then (0, s, tr)
      else if mInterfaces s = [] then (0, s\<lparr>mPermission := permission\<rparr>, tr)
      else
        (case destroySocketsLackingPermission x s permission tr of
           (_, tr1) \<Rightarrow>
        (case forEachInterface (setPermission_modify x s permission) (mInterfaces s) tr1 of
           (ret, tr2) \<Rightarrow>
             if ret \<noteq> 0 then (ret, s, tr2)
             else
        (case (if mIsDefault s
               then forEachInterface (setPermission_default x s permission) (mInterfaces s) tr2
               else (0, tr2)) of
           (ret2, tr3) \<Rightarrow>
             if ret2 \<noteq> 0 then (ret2, s, tr3)
             else
        (case destroySocketsLackingPermission x s permission tr3 of
           (_, tr4) \<Rightarrow> (0, s\<lparr>mPermission := permission\<rparr>, tr4))))))"

text \<open>\<^verbatim>\<open>addAsDefault\<close> (lines 144 to 155).\<close>

definition addAsDefault ::
  "Externals \<Rightarrow> PhysicalNetwork \<Rightarrow> Event list \<Rightarrow> int \<times> PhysicalNetwork \<times> Event list" where
  "addAsDefault x s tr =
     (if mIsDefault s then (0, s, tr)
      else
        (case forEachInterface (\<lambda>interface. addToDefault x (mNetId s) interface (mPermission s))
                (mInterfaces s) tr of
           (ret, tr1) \<Rightarrow>
             if ret \<noteq> 0 then (ret, s, tr1) else (0, s\<lparr>mIsDefault := True\<rparr>, tr1)))"

text \<open>\<^verbatim>\<open>removeAsDefault\<close> (lines 157 to 168).\<close>

definition removeAsDefault ::
  "Externals \<Rightarrow> PhysicalNetwork \<Rightarrow> Event list \<Rightarrow> int \<times> PhysicalNetwork \<times> Event list" where
  "removeAsDefault x s tr =
     (if \<not> mIsDefault s then (0, s, tr)
      else
        (case forEachInterface (\<lambda>interface. removeFromDefault x (mNetId s) interface (mPermission s))
                (mInterfaces s) tr of
           (ret, tr1) \<Rightarrow>
             if ret \<noteq> 0 then (ret, s, tr1) else (0, s\<lparr>mIsDefault := False\<rparr>, tr1)))"

text \<open>\<^verbatim>\<open>isValidSubPriority\<close> (lines 242 to 247): signed comparisons of \<^verbatim>\<open>int32_t\<close>.\<close>

definition isValidSubPriority :: "Externals \<Rightarrow> int32_t \<Rightarrow> bool" where
  "isValidSubPriority x priority =
     ((sint (SUB_PRIORITY_HIGHEST x) \<le> sint priority \<and>
       sint priority \<le> sint (SUB_PRIORITY_LOWEST x)) \<or>
      priority = SUB_PRIORITY_NO_DEFAULT x)"

text \<open>
  \<^verbatim>\<open>addUsers\<close> (lines 170 to 185). The braces \<^verbatim>\<open>{{subPriority, uidRanges}}\<close> build a
  map with that one entry.
\<close>

definition addUsers ::
  "Externals \<Rightarrow> UidRanges \<Rightarrow> int32_t \<Rightarrow> PhysicalNetwork \<Rightarrow> Event list \<Rightarrow> int \<times> PhysicalNetwork \<times> Event list" where
  "addUsers x uidRanges subPriority s tr =
     (if \<not> isValidSubPriority x subPriority \<or> \<not> canAddUidRanges x (mUidRangeMap s) uidRanges
      then (- EINVAL, s, tr)
      else
        (case forEachInterface
                (\<lambda>interface. invoke x (AddUsersToPhysicalNetwork (mNetId s) interface
                                 [subPriority \<mapsto> uidRanges] (mIsLocalNetwork s)))
                (mInterfaces s) tr of
           (ret, tr1) \<Rightarrow>
             if ret \<noteq> 0 then (ret, s, tr1)
             else (0, addToUidRangeMap uidRanges subPriority s, tr1)))"

text \<open>\<^verbatim>\<open>removeUsers\<close> (lines 187 to 200).\<close>

definition removeUsers ::
  "Externals \<Rightarrow> UidRanges \<Rightarrow> int32_t \<Rightarrow> PhysicalNetwork \<Rightarrow> Event list \<Rightarrow> int \<times> PhysicalNetwork \<times> Event list" where
  "removeUsers x uidRanges subPriority s tr =
     (if \<not> isValidSubPriority x subPriority then (- EINVAL, s, tr)
      else
        (case forEachInterface
                (\<lambda>interface. invoke x (RemoveUsersFromPhysicalNetwork (mNetId s) interface
                                 [subPriority \<mapsto> uidRanges] (mIsLocalNetwork s)))
                (mInterfaces s) tr of
           (ret, tr1) \<Rightarrow>
             if ret \<noteq> 0 then (ret, s, tr1)
             else (0, removeFromUidRangeMap uidRanges subPriority s, tr1)))"

text \<open>
  \<^verbatim>\<open>addInterface\<close> (lines 202 to 218). \<^verbatim>\<open>mInterfaces.insert\<close> puts the name at its
  place in the ascending order.
\<close>

definition addInterface ::
  "Externals \<Rightarrow> string \<Rightarrow> PhysicalNetwork \<Rightarrow> Event list \<Rightarrow> int \<times> PhysicalNetwork \<times> Event list" where
  "addInterface x interface s tr =
     (if hasInterface s interface then (0, s, tr)
      else
        (case invoke x (AddInterfaceToPhysicalNetwork (mNetId s) interface (mPermission s)
                          (mUidRangeMap s) (mIsLocalNetwork s)) tr of
           (ret, tr1) \<Rightarrow>
             if ret \<noteq> 0 then (ret, s, tr1)
             else
        (case (if mIsDefault s
               then addToDefault x (mNetId s) interface (mPermission s) tr1
               else (0, tr1)) of
           (ret2, tr2) \<Rightarrow>
             if ret2 \<noteq> 0 then (ret2, s, tr2)
             else (0, s\<lparr>mInterfaces := insort interface (mInterfaces s)\<rparr>, tr2))))"

text \<open>\<^verbatim>\<open>removeInterface\<close> (lines 220 to 240).\<close>

definition removeInterface ::
  "Externals \<Rightarrow> string \<Rightarrow> PhysicalNetwork \<Rightarrow> Event list \<Rightarrow> int \<times> PhysicalNetwork \<times> Event list" where
  "removeInterface x interface s tr =
     (if \<not> hasInterface s interface then (0, s, tr)
      else
        (case (if mIsDefault s
               then removeFromDefault x (mNetId s) interface (mPermission s) tr
               else (0, tr)) of
           (ret, tr1) \<Rightarrow>
             if ret \<noteq> 0 then (ret, s, tr1)
             else
        (case invoke x (RemoveInterfaceFromPhysicalNetwork (mNetId s) interface (mPermission s)
                          (mUidRangeMap s) (mIsLocalNetwork s)) tr1 of
           (ret2, tr2) \<Rightarrow>
             if ret2 \<noteq> 0 then (ret2, s, tr2)
             else (0, s\<lparr>mInterfaces := removeAll interface (mInterfaces s)\<rparr>, tr2))))"

section \<open>Reading the event log\<close>

text \<open>
  The calls whose result \<^verbatim>\<open>setPermission\<close> tests (\<^verbatim>\<open>if (int ret = ...) return ret\<close>, in
  the function itself or in \<^verbatim>\<open>addToDefault\<close> and \<^verbatim>\<open>removeFromDefault\<close>).
\<close>

fun resultChecked :: "Call \<Rightarrow> bool" where
  "resultChecked (ModifyPhysicalNetworkPermission n i p q l) = True"
| "resultChecked (AddInterfaceToDefaultNetwork i p) = True"
| "resultChecked (AddFallthrough i p) = True"
| "resultChecked (RemoveInterfaceFromDefaultNetwork i p) = True"
| "resultChecked (RemoveFallthrough i p) = True"
| "resultChecked c = False"

text \<open>The calls made by \<^verbatim>\<open>addToDefault\<close> and \<^verbatim>\<open>removeFromDefault\<close>.\<close>

fun isDefaultCall :: "Call \<Rightarrow> bool" where
  "isDefaultCall (AddInterfaceToDefaultNetwork i p) = True"
| "isDefaultCall (AddFallthrough i p) = True"
| "isDefaultCall (RemoveInterfaceFromDefaultNetwork i p) = True"
| "isDefaultCall (RemoveFallthrough i p) = True"
| "isDefaultCall c = False"

text \<open>The calls to \<^verbatim>\<open>SockDiag\<close>.\<close>

fun isSockDiagCall :: "Call \<Rightarrow> bool" where
  "isSockDiagCall SockDiagOpen = True"
| "isSockDiagCall (SockDiagDestroySocketsLackingPermission n p l) = True"
| "isSockDiagCall c = False"

text \<open>The calls to the \<^verbatim>\<open>Delegate\<close>.\<close>

fun isDelegateCall :: "Call \<Rightarrow> bool" where
  "isDelegateCall (AddFallthrough i p) = True"
| "isDelegateCall (RemoveFallthrough i p) = True"
| "isDelegateCall c = False"

text \<open>
  The calls the second loop of \<^verbatim>\<open>setPermission\<close> makes for one interface when every one
  of them returns 0: \<^verbatim>\<open>addToDefault\<close> under the new permission, then
  \<^verbatim>\<open>removeFromDefault\<close> under the old one.
\<close>

definition defaultSwitch :: "Permission \<Rightarrow> Permission \<Rightarrow> string \<Rightarrow> Call list" where
  "defaultSwitch new old i =
     [AddInterfaceToDefaultNetwork i new, AddFallthrough i new,
      RemoveInterfaceFromDefaultNetwork i old, RemoveFallthrough i old]"

section \<open>Sample values\<close>

text \<open>
  Concrete externals and states on which the theorems below are instantiated. The
  sub-priority constants are given sample values; the range check, the collaborators'
  answers and the answer of \<^verbatim>\<open>SockDiag::open\<close> are arguments.
\<close>

definition sampleExternals ::
  "(UidRangeMap \<Rightarrow> UidRanges \<Rightarrow> bool) \<Rightarrow> (Event list \<Rightarrow> Call \<Rightarrow> int) \<Rightarrow> (Event list \<Rightarrow> bool) \<Rightarrow> Externals" where
  "sampleExternals canAdd answers opens =
     \<lparr>SUB_PRIORITY_HIGHEST = 0, SUB_PRIORITY_LOWEST = 998, SUB_PRIORITY_NO_DEFAULT = 999,
      canAddUidRanges = canAdd, collaborator = answers, sockDiagOpens = opens\<rparr>"

text \<open>Every collaborator call returns 0 and \<^verbatim>\<open>SockDiag::open\<close> succeeds.\<close>

definition allSucceed :: Externals where
  "allSucceed = sampleExternals (\<lambda>m r. True) (\<lambda>tr c. 0) (\<lambda>tr. True)"

text \<open>Every collaborator call returns -1, \<^verbatim>\<open>SockDiag::open\<close> fails, no range can be added.\<close>

definition allFail :: Externals where
  "allFail = sampleExternals (\<lambda>m r. False) (\<lambda>tr c. - 1) (\<lambda>tr. False)"

text \<open>Every collaborator call returns 0, but \<^verbatim>\<open>SockDiag::open\<close> fails.\<close>

definition sockDiagDown :: Externals where
  "sockDiagDown = sampleExternals (\<lambda>m r. True) (\<lambda>tr c. 0) (\<lambda>tr. False)"


text \<open>The second collaborator call of a run returns -5, every other one 0.\<close>

definition secondCallFails :: Externals where
  "secondCallFails =
     sampleExternals (\<lambda>m r. True) (\<lambda>tr c. if length tr = 1 then - 5 else 0) (\<lambda>tr. True)"

text \<open>
  A range check that refuses ranges already registered with the network, at whatever
  sub-priority; every collaborator call returns 0.
\<close>

definition rejectRegistered :: Externals where
  "rejectRegistered =
     sampleExternals (\<lambda>m r. r \<inter> \<Union> (ran m) = {}) (\<lambda>tr c. 0) (\<lambda>tr. True)"

text \<open>The calls to the delegate return -1, every other call returns 0.\<close>

definition fallthroughFails :: Externals where
  "fallthroughFails =
     sampleExternals (\<lambda>m r. True) (\<lambda>tr c. if isDelegateCall c then - 1 else 0) (\<lambda>tr. True)"

text \<open>A network with the given interfaces, permission and default flag, and no UID ranges.\<close>

definition sampleNetwork :: "string list \<Rightarrow> Permission \<Rightarrow> bool \<Rightarrow> PhysicalNetwork" where
  "sampleNetwork ifs p d =
     \<lparr>mNetId = 100, mInterfaces = ifs, mUidRangeMap = Map.empty, mPermission = p,
      mIsDefault = d, mIsLocalNetwork = False\<rparr>"

section \<open>The loop over the interfaces\<close>

lemma forEachInterface_summary:
  assumes body: "\<And>i t r t'. body i t = (r, t') \<Longrightarrow> \<exists>ev. t' = t @ ev \<and> S [i] r ev"
    and nil: "S [] 0 []"
    and seq: "\<And>is1 ev1 is2 r ev2. S is1 0 ev1 \<Longrightarrow> S is2 r ev2 \<Longrightarrow> S (is1 @ is2) r (ev1 @ ev2)"
    and stop: "\<And>is1 r ev is2. r \<noteq> 0 \<Longrightarrow> S is1 r ev \<Longrightarrow> S (is1 @ is2) r ev"
  shows "forEachInterface body ifs tr = (ret, tr') \<Longrightarrow> \<exists>ev. tr' = tr @ ev \<and> S ifs ret ev"
proof (induction ifs arbitrary: tr)
  case Nil
  with nil show ?case by simp
next
  case (Cons i rest)
  obtain r t1 where b: "body i tr = (r, t1)"
    by (cases "body i tr")
  from body [OF b] obtain ev1 where ev1: "t1 = tr @ ev1" "S [i] r ev1"
    by blast
  show ?case
  proof (cases "r = 0")
    case False
    with Cons.prems b have "tr' = t1" "ret = r"
      by simp_all
    moreover from stop [OF False ev1(2), of rest] have "S (i # rest) r ev1"
      by simp
    ultimately show ?thesis
      using ev1(1) by blast
  next
    case True
    with Cons.prems b have "forEachInterface body rest t1 = (ret, tr')"
      by simp
    from Cons.IH [OF this] obtain ev2 where ev2: "tr' = t1 @ ev2" "S rest ret ev2"
      by blast
    from seq [of "[i]" ev1 rest ret ev2] ev1(2) ev2(2) True have "S (i # rest) ret (ev1 @ ev2)"
      by simp
    with ev1(1) ev2(1) show ?thesis
      by auto
  qed
qed

lemma invoke_events:
  "invoke x c tr = (r, tr') \<Longrightarrow> tr' = tr @ [(c, r)]"
  by (auto simp: invoke_def)

lemma addToDefault_events:
  assumes "addToDefault x n i p tr = (r, tr')"
  shows "\<exists>ev. tr' = tr @ ev \<and>
           (if r = 0
            then ev = [(AddInterfaceToDefaultNetwork i p, 0), (AddFallthrough i p, 0)]
            else ev = [(AddInterfaceToDefaultNetwork i p, r)] \<or>
                 ev = [(AddInterfaceToDefaultNetwork i p, 0), (AddFallthrough i p, r)])"
  using assms by (auto simp: addToDefault_def invoke_def split: if_splits)

lemma removeFromDefault_events:
  assumes "removeFromDefault x n i p tr = (r, tr')"
  shows "\<exists>ev. tr' = tr @ ev \<and>
           (if r = 0
            then ev = [(RemoveInterfaceFromDefaultNetwork i p, 0), (RemoveFallthrough i p, 0)]
            else ev = [(RemoveInterfaceFromDefaultNetwork i p, r)] \<or>
                 ev = [(RemoveInterfaceFromDefaultNetwork i p, 0), (RemoveFallthrough i p, r)])"
  using assms by (auto simp: removeFromDefault_def invoke_def split: if_splits)

lemma destroySocketsLackingPermission_events:
  assumes "destroySocketsLackingPermission x s p tr = (r, tr')"
  shows "\<exists>ev. tr' = tr @ ev \<and>
           (if p = PERMISSION_NONE then r = 0 \<and> ev = []
            else if \<not> sockDiagOpens x tr then r = - EBADFD \<and> ev = [(SockDiagOpen, 0)]
            else ev = [(SockDiagOpen, 1),
                       (SockDiagDestroySocketsLackingPermission (mNetId s) p True, r)])"
  using assms by (auto simp: destroySocketsLackingPermission_def invoke_def split: if_splits)

lemma invalidateRouteCache_events:
  "\<exists>a b c d. invalidateRouteCache x i tr = tr @
     [(AddRoute i ''0.0.0.0/0'' ''throw'' INTERFACE 0 100000, a),
      (RemoveRoute i ''0.0.0.0/0'' ''throw'' INTERFACE 100000, b),
      (AddRoute i ''::/0'' ''throw'' INTERFACE 0 100000, c),
      (RemoveRoute i ''::/0'' ''throw'' INTERFACE 100000, d)]"
  by (simp add: invalidateRouteCache_def invalidateRouteCache_dst_def invoke_def Let_def)

lemma setPermission_modify_events:
  assumes "setPermission_modify x s p i tr = (r, tr')"
  shows "\<exists>ev. tr' = tr @ ev \<and>
           (if r = 0
            then \<exists>a b c d. ev =
                   [(ModifyPhysicalNetworkPermission (mNetId s) i (mPermission s) p (mIsLocalNetwork s), 0),
                    (AddRoute i ''0.0.0.0/0'' ''throw'' INTERFACE 0 100000, a),
                    (RemoveRoute i ''0.0.0.0/0'' ''throw'' INTERFACE 100000, b),
                    (AddRoute i ''::/0'' ''throw'' INTERFACE 0 100000, c),
                    (RemoveRoute i ''::/0'' ''throw'' INTERFACE 100000, d)]
            else ev = [(ModifyPhysicalNetworkPermission (mNetId s) i (mPermission s) p (mIsLocalNetwork s), r)])"
proof -
  let ?m = "ModifyPhysicalNetworkPermission (mNetId s) i (mPermission s) p (mIsLocalNetwork s)"
  obtain r1 t1 where i: "invoke x ?m tr = (r1, t1)"
    by (cases "invoke x ?m tr")
  then have t1: "t1 = tr @ [(?m, r1)]"
    by (rule invoke_events)
  show ?thesis
  proof (cases "r1 = 0")
    case False
    with assms i t1 show ?thesis
      by (auto simp: setPermission_modify_def)
  next
    case True
    with assms i have "r = 0" "tr' = invalidateRouteCache x i t1"
      by (simp_all add: setPermission_modify_def)
    with invalidateRouteCache_events [of x i t1] t1 True show ?thesis
      by auto
  qed
qed

lemma setPermission_default_events:
  assumes "setPermission_default x s p i tr = (r, tr')"
  shows "\<exists>ev. tr' = tr @ ev \<and> ev \<noteq> [] \<and> snd (last ev) = r \<and>
           (\<forall>e\<in>set (butlast ev). snd e = 0) \<and>
           prefix (map fst ev) (defaultSwitch p (mPermission s) i) \<and>
           (r = 0 \<longrightarrow> map fst ev = defaultSwitch p (mPermission s) i)"
proof -
  obtain r1 t1 where a: "addToDefault x (mNetId s) i p tr = (r1, t1)"
    by (cases "addToDefault x (mNetId s) i p tr")
  from addToDefault_events [OF a] obtain ev1 where ev1: "t1 = tr @ ev1"
    "if r1 = 0 then ev1 = [(AddInterfaceToDefaultNetwork i p, 0), (AddFallthrough i p, 0)]
     else ev1 = [(AddInterfaceToDefaultNetwork i p, r1)] \<or>
          ev1 = [(AddInterfaceToDefaultNetwork i p, 0), (AddFallthrough i p, r1)]"
    by blast
  show ?thesis
  proof (cases "r1 = 0")
    case False
    with assms a have "r = r1" "tr' = t1"
      by (simp_all add: setPermission_default_def)
    with ev1 False show ?thesis
      by (auto simp: defaultSwitch_def)
  next
    case True
    obtain r2 t2 where b: "removeFromDefault x (mNetId s) i (mPermission s) t1 = (r2, t2)"
      by (cases "removeFromDefault x (mNetId s) i (mPermission s) t1")
    from removeFromDefault_events [OF b] obtain ev2 where ev2: "t2 = t1 @ ev2"
      "if r2 = 0
       then ev2 = [(RemoveInterfaceFromDefaultNetwork i (mPermission s), 0),
                   (RemoveFallthrough i (mPermission s), 0)]
       else ev2 = [(RemoveInterfaceFromDefaultNetwork i (mPermission s), r2)] \<or>
            ev2 = [(RemoveInterfaceFromDefaultNetwork i (mPermission s), 0),
                   (RemoveFallthrough i (mPermission s), r2)]"
      by blast
    from assms a b True have "r = r2" "tr' = t2"
      by (simp_all add: setPermission_default_def split: if_splits)
    with ev1 ev2 True have "tr' = tr @ (ev1 @ ev2)"
      by simp
    moreover from ev1 ev2 True \<open>r = r2\<close> have "ev1 @ ev2 \<noteq> [] \<and> snd (last (ev1 @ ev2)) = r \<and>
           (\<forall>e\<in>set (butlast (ev1 @ ev2)). snd e = 0) \<and>
           prefix (map fst (ev1 @ ev2)) (defaultSwitch p (mPermission s) i) \<and>
           (r = 0 \<longrightarrow> map fst (ev1 @ ev2) = defaultSwitch p (mPermission s) i)"
      by (cases "r2 = 0") (auto simp: defaultSwitch_def)
    ultimately show ?thesis
      by blast
  qed
qed

lemma forEachInterface_all:
  assumes body: "\<And>i t r t'. body i t = (r, t') \<Longrightarrow> \<exists>ev. t' = t @ ev \<and> (\<forall>e\<in>set ev. P e)"
    and run: "forEachInterface body ifs tr = (ret, tr')"
  shows "\<exists>ev. tr' = tr @ ev \<and> (\<forall>e\<in>set ev. P e)"
proof (rule forEachInterface_summary [where S = "\<lambda>_ _ ev. \<forall>e\<in>set ev. P e", OF _ _ _ _ run])
  fix i t r t'
  assume "body i t = (r, t')"
  from body [OF this] show "\<exists>ev. t' = t @ ev \<and> (\<forall>e\<in>set ev. P e)" .
qed auto

lemma forEachInterface_succeeded:
  assumes body: "\<And>i t r t'. body i t = (r, t') \<Longrightarrow>
                   \<exists>ev. t' = t @ ev \<and> (r = 0 \<longrightarrow> (\<forall>e\<in>set ev. P e))"
    and run: "forEachInterface body ifs tr = (ret, tr')"
  shows "\<exists>ev. tr' = tr @ ev \<and> (ret = 0 \<longrightarrow> (\<forall>e\<in>set ev. P e))"
proof (rule forEachInterface_summary
    [where S = "\<lambda>_ r ev. r = 0 \<longrightarrow> (\<forall>e\<in>set ev. P e)", OF _ _ _ _ run])
  fix i t r t'
  assume "body i t = (r, t')"
  from body [OF this] show "\<exists>ev. t' = t @ ev \<and> (r = 0 \<longrightarrow> (\<forall>e\<in>set ev. P e))" .
qed auto

lemma forEachInterface_failed:
  assumes body: "\<And>i t r t'. body i t = (r, t') \<Longrightarrow>
      \<exists>ev. t' = t @ ev \<and> (r \<noteq> 0 \<longrightarrow> ev \<noteq> [] \<and> snd (last ev) = r \<and> P (fst (last ev)))"
    and run: "forEachInterface body ifs tr = (ret, tr')"
  shows "\<exists>ev. tr' = tr @ ev \<and>
           (ret \<noteq> 0 \<longrightarrow> ev \<noteq> [] \<and> snd (last ev) = ret \<and> P (fst (last ev)))"
proof (rule forEachInterface_summary
    [where S = "\<lambda>_ r ev. r \<noteq> 0 \<longrightarrow> ev \<noteq> [] \<and> snd (last ev) = r \<and> P (fst (last ev))",
      OF _ _ _ _ run])
  fix i t r t'
  assume "body i t = (r, t')"
  from body [OF this]
  show "\<exists>ev. t' = t @ ev \<and> (r \<noteq> 0 \<longrightarrow> ev \<noteq> [] \<and> snd (last ev) = r \<and> P (fst (last ev)))" .
qed auto

lemma forEachInterface_calls:
  assumes body: "\<And>i t r t'. body i t = (r, t') \<Longrightarrow>
      \<exists>ev. t' = t @ ev \<and> prefix (filter p (map fst ev)) (calls i) \<and>
           (r = 0 \<longrightarrow> filter p (map fst ev) = calls i)"
    and run: "forEachInterface body ifs tr = (ret, tr')"
  shows "\<exists>ev. tr' = tr @ ev \<and> prefix (filter p (map fst ev)) (concat (map calls ifs)) \<and>
           (ret = 0 \<longrightarrow> filter p (map fst ev) = concat (map calls ifs))"
proof (rule forEachInterface_summary
    [where S = "\<lambda>is r ev. prefix (filter p (map fst ev)) (concat (map calls is)) \<and>
           (r = 0 \<longrightarrow> filter p (map fst ev) = concat (map calls is))", OF _ _ _ _ run])
  fix i t r t'
  assume "body i t = (r, t')"
  from body [OF this] show "\<exists>ev. t' = t @ ev \<and> (prefix (filter p (map fst ev)) (concat (map calls [i])) \<and>
           (r = 0 \<longrightarrow> filter p (map fst ev) = concat (map calls [i])))"
    by simp
qed (auto simp: prefix_prefix)

lemma setPermission_run:
  assumes "permission \<noteq> mPermission s" and "mInterfaces s \<noteq> []"
    and "setPermission x permission s tr = (ret, s', tr')"
  obtains
    (modify_failed) r1 t1 where
      "destroySocketsLackingPermission x s permission tr = (r1, t1)"
      "forEachInterface (setPermission_modify x s permission) (mInterfaces s) t1 = (ret, tr')"
      "ret \<noteq> 0" "s' = s"
  | (default_failed) r1 t1 t2 where
      "destroySocketsLackingPermission x s permission tr = (r1, t1)"
      "forEachInterface (setPermission_modify x s permission) (mInterfaces s) t1 = (0, t2)"
      "mIsDefault s"
      "forEachInterface (setPermission_default x s permission) (mInterfaces s) t2 = (ret, tr')"
      "ret \<noteq> 0" "s' = s"
  | (stored) r1 t1 t2 t3 r4 where
      "destroySocketsLackingPermission x s permission tr = (r1, t1)"
      "forEachInterface (setPermission_modify x s permission) (mInterfaces s) t1 = (0, t2)"
      "if mIsDefault s
       then forEachInterface (setPermission_default x s permission) (mInterfaces s) t2 = (0, t3)
       else t3 = t2"
      "destroySocketsLackingPermission x s permission t3 = (r4, tr')"
      "ret = 0" "s' = s\<lparr>mPermission := permission\<rparr>"
  using assms
  by (auto simp: setPermission_def split: prod.splits if_splits)

lemma modify_loop:
  assumes run: "forEachInterface (setPermission_modify x s p) ifs tr = (ret, tr')"
  shows "\<exists>ev. tr' = tr @ ev \<and>
           (\<forall>e\<in>set ev. \<not> isSockDiagCall (fst e) \<and> \<not> isDefaultCall (fst e)) \<and>
           (ret = 0 \<longrightarrow> (\<forall>e\<in>set ev. resultChecked (fst e) \<longrightarrow> snd e = 0)) \<and>
           (ret \<noteq> 0 \<longrightarrow> ev \<noteq> [] \<and> snd (last ev) = ret \<and> resultChecked (fst (last ev)))"
proof -
  have "\<exists>ev. tr' = tr @ ev \<and> (\<forall>e\<in>set ev. \<not> isSockDiagCall (fst e) \<and> \<not> isDefaultCall (fst e))"
    by (rule forEachInterface_all [OF _ run])
      (auto dest!: setPermission_modify_events split: if_splits)
  moreover have "\<exists>ev. tr' = tr @ ev \<and> (ret = 0 \<longrightarrow> (\<forall>e\<in>set ev. resultChecked (fst e) \<longrightarrow> snd e = 0))"
    by (rule forEachInterface_succeeded [OF _ run])
      (auto dest!: setPermission_modify_events split: if_splits)
  moreover have "\<exists>ev. tr' = tr @ ev \<and>
      (ret \<noteq> 0 \<longrightarrow> ev \<noteq> [] \<and> snd (last ev) = ret \<and> resultChecked (fst (last ev)))"
    by (rule forEachInterface_failed [OF _ run])
      (auto dest!: setPermission_modify_events split: if_splits)
  ultimately show ?thesis
    by auto
qed

lemma defaultSwitch_calls:
  assumes "prefix cs (defaultSwitch p q i)" and "c \<in> set cs"
  shows "isDefaultCall c \<and> resultChecked c \<and> \<not> isSockDiagCall c"
proof -
  from assms have "c \<in> set (defaultSwitch p q i)"
    using set_mono_prefix by blast
  then show ?thesis
    by (auto simp: defaultSwitch_def)
qed

lemma default_loop:
  assumes run: "forEachInterface (setPermission_default x s p) ifs tr = (ret, tr')"
  shows "\<exists>ev. tr' = tr @ ev \<and>
           (\<forall>e\<in>set ev. \<not> isSockDiagCall (fst e) \<and> isDefaultCall (fst e)) \<and>
           (ret = 0 \<longrightarrow> (\<forall>e\<in>set ev. snd e = 0)) \<and>
           (ret \<noteq> 0 \<longrightarrow> ev \<noteq> [] \<and> snd (last ev) = ret \<and> resultChecked (fst (last ev))) \<and>
           prefix (map fst ev) (concat (map (defaultSwitch p (mPermission s)) ifs)) \<and>
           (ret = 0 \<longrightarrow> map fst ev = concat (map (defaultSwitch p (mPermission s)) ifs))"
proof -
  have body: "\<exists>ev. t' = t @ ev \<and>
      (\<forall>e\<in>set ev. \<not> isSockDiagCall (fst e) \<and> isDefaultCall (fst e)) \<and>
      (r = 0 \<longrightarrow> (\<forall>e\<in>set ev. snd e = 0)) \<and>
      (r \<noteq> 0 \<longrightarrow> ev \<noteq> [] \<and> snd (last ev) = r \<and> resultChecked (fst (last ev))) \<and>
      prefix (filter (\<lambda>_. True) (map fst ev)) (defaultSwitch p (mPermission s) i) \<and>
      (r = 0 \<longrightarrow> filter (\<lambda>_. True) (map fst ev) = defaultSwitch p (mPermission s) i)"
    if b: "setPermission_default x s p i t = (r, t')" for i t r t'
  proof -
    from setPermission_default_events [OF b] obtain ev where ev: "t' = t @ ev" "ev \<noteq> []"
      "snd (last ev) = r" "\<forall>e\<in>set (butlast ev). snd e = 0"
      "prefix (map fst ev) (defaultSwitch p (mPermission s) i)"
      "r = 0 \<longrightarrow> map fst ev = defaultSwitch p (mPermission s) i"
      by blast
    have calls: "isDefaultCall (fst e) \<and> resultChecked (fst e) \<and> \<not> isSockDiagCall (fst e)"
      if "e \<in> set ev" for e
      using defaultSwitch_calls [OF ev(5), of "fst e"] that by simp
    have "snd e = 0" if "r = 0" "e \<in> set ev" for e
    proof -
      from ev(2) have "ev = butlast ev @ [last ev]"
        by simp
      with that(2) have "e \<in> set (butlast ev) \<or> e = last ev"
        by (metis Un_iff empty_iff empty_set set_ConsD set_append)
      with ev(3,4) that(1) show ?thesis
        by auto
    qed
    moreover from ev(2) have "last ev \<in> set ev"
      by simp
    ultimately show ?thesis
      using ev calls by auto
  qed
  have "\<exists>ev. tr' = tr @ ev \<and> (\<forall>e\<in>set ev. \<not> isSockDiagCall (fst e) \<and> isDefaultCall (fst e))"
    by (rule forEachInterface_all [OF _ run]) (use body in blast)
  moreover have "\<exists>ev. tr' = tr @ ev \<and> (ret = 0 \<longrightarrow> (\<forall>e\<in>set ev. snd e = 0))"
    by (rule forEachInterface_succeeded [OF _ run]) (use body in blast)
  moreover have "\<exists>ev. tr' = tr @ ev \<and>
      (ret \<noteq> 0 \<longrightarrow> ev \<noteq> [] \<and> snd (last ev) = ret \<and> resultChecked (fst (last ev)))"
    by (rule forEachInterface_failed [OF _ run]) (use body in blast)
  moreover have "\<exists>ev. tr' = tr @ ev \<and>
      prefix (filter (\<lambda>_. True) (map fst ev)) (concat (map (defaultSwitch p (mPermission s)) ifs)) \<and>
      (ret = 0 \<longrightarrow> filter (\<lambda>_. True) (map fst ev) = concat (map (defaultSwitch p (mPermission s)) ifs))"
    by (rule forEachInterface_calls [OF _ run]) (use body in blast)
  ultimately show ?thesis
    by auto
qed

lemma modify_loop_first:
  assumes run: "forEachInterface (setPermission_modify x s p) ifs tr = (ret, tr')"
    and ne: "ifs \<noteq> []"
  shows "\<exists>r0 ev. tr' = tr @
           (ModifyPhysicalNetworkPermission (mNetId s) (hd ifs) (mPermission s) p (mIsLocalNetwork s), r0) # ev"
proof -
  from ne obtain i rest where ifs: "ifs = i # rest"
    by (cases ifs) auto
  obtain r t1 where b: "setPermission_modify x s p i tr = (r, t1)"
    by (cases "setPermission_modify x s p i tr")
  from setPermission_modify_events [OF b] obtain r0 ev1 where t1: "t1 = tr @
      (ModifyPhysicalNetworkPermission (mNetId s) i (mPermission s) p (mIsLocalNetwork s), r0) # ev1"
    by (auto split: if_splits)
  show ?thesis
  proof (cases "r = 0")
    case False
    with run ifs b have "tr' = t1"
      by simp
    with t1 ifs show ?thesis
      by auto
  next
    case True
    with run ifs b have "forEachInterface (setPermission_modify x s p) rest t1 = (ret, tr')"
      by simp
    from modify_loop [OF this] obtain ev2 where "tr' = t1 @ ev2"
      by blast
    with t1 ifs show ?thesis
      by auto
  qed
qed

lemma setPermission_events:
  assumes new: "permission \<noteq> mPermission s" and ne: "mInterfaces s \<noteq> []"
    and run: "setPermission x permission s tr = (ret, s', tr')"
  shows "\<exists>sd1 r0 m d sd2.
           snd (destroySocketsLackingPermission x s permission tr) = tr @ sd1 \<and>
           tr' = tr @ sd1 @
             (ModifyPhysicalNetworkPermission (mNetId s) (hd (mInterfaces s)) (mPermission s)
                permission (mIsLocalNetwork s), r0) # m @ d @ sd2 \<and>
           (\<forall>e\<in>set (sd1 @ sd2). isSockDiagCall (fst e)) \<and>
           (permission = PERMISSION_NONE \<longrightarrow> sd1 = [] \<and> sd2 = []) \<and>
           (\<forall>e\<in>set m. \<not> isSockDiagCall (fst e) \<and> \<not> isDefaultCall (fst e)) \<and>
           (\<forall>e\<in>set d. \<not> isSockDiagCall (fst e) \<and> isDefaultCall (fst e)) \<and>
           (\<not> mIsDefault s \<longrightarrow> d = []) \<and>
           prefix (map fst d)
             (concat (map (defaultSwitch permission (mPermission s)) (mInterfaces s))) \<and>
           (ret = 0 \<longrightarrow> s' = s\<lparr>mPermission := permission\<rparr> \<and> r0 = 0 \<and>
              (\<forall>e\<in>set (m @ d). resultChecked (fst e) \<longrightarrow> snd e = 0) \<and>
              (mIsDefault s \<longrightarrow> map fst d =
                 concat (map (defaultSwitch permission (mPermission s)) (mInterfaces s)))) \<and>
           (ret \<noteq> 0 \<longrightarrow> s' = s \<and> sd2 = [] \<and>
              (\<exists>c. last tr' = (c, ret) \<and> resultChecked c))"
    (is "\<exists>sd1 r0 m d sd2. ?P sd1 r0 m d sd2")
  using new ne run
proof (cases rule: setPermission_run)
  case (modify_failed r1 t1)
  define md where "md = ModifyPhysicalNetworkPermission (mNetId s) (hd (mInterfaces s))
    (mPermission s) permission (mIsLocalNetwork s)"
  from destroySocketsLackingPermission_events [OF modify_failed(1)] obtain sd1 where
    sd1: "t1 = tr @ sd1" "\<forall>e\<in>set sd1. isSockDiagCall (fst e)" "permission = PERMISSION_NONE \<longrightarrow> sd1 = []"
    by (auto split: if_splits)
  from modify_loop [OF modify_failed(2)] obtain ev where ev: "tr' = t1 @ ev"
    "\<forall>e\<in>set ev. \<not> isSockDiagCall (fst e) \<and> \<not> isDefaultCall (fst e)"
    "ev \<noteq> []" "snd (last ev) = ret" "resultChecked (fst (last ev))"
    using modify_failed(3) by blast
  from modify_loop_first [OF modify_failed(2) ne] ev(1) obtain r0 m where m: "ev = (md, r0) # m"
    unfolding md_def by auto
  from ev(1,3,4,5) have "\<exists>c. last tr' = (c, ret) \<and> resultChecked c"
    by (metis last_appendR prod.collapse)
  with sd1 ev(1,2) m modify_failed(1,3,4) have "?P sd1 r0 m [] []"
    unfolding md_def [symmetric] by (intro conjI impI) simp_all
  then show ?thesis
    by blast
next
  case (default_failed r1 t1 t2)
  define md where "md = ModifyPhysicalNetworkPermission (mNetId s) (hd (mInterfaces s))
    (mPermission s) permission (mIsLocalNetwork s)"
  from destroySocketsLackingPermission_events [OF default_failed(1)] obtain sd1 where
    sd1: "t1 = tr @ sd1" "\<forall>e\<in>set sd1. isSockDiagCall (fst e)" "permission = PERMISSION_NONE \<longrightarrow> sd1 = []"
    by (auto split: if_splits)
  from modify_loop [OF default_failed(2)] obtain ev where ev: "t2 = t1 @ ev"
    "\<forall>e\<in>set ev. \<not> isSockDiagCall (fst e) \<and> \<not> isDefaultCall (fst e)"
    "\<forall>e\<in>set ev. resultChecked (fst e) \<longrightarrow> snd e = 0"
    by auto
  from modify_loop_first [OF default_failed(2) ne] ev(1) obtain r0 m where m: "ev = (md, r0) # m"
    unfolding md_def by auto
  from default_loop [OF default_failed(4)] obtain d where d: "tr' = t2 @ d"
    "\<forall>e\<in>set d. \<not> isSockDiagCall (fst e) \<and> isDefaultCall (fst e)"
    "d \<noteq> []" "snd (last d) = ret" "resultChecked (fst (last d))"
    "prefix (map fst d) (concat (map (defaultSwitch permission (mPermission s)) (mInterfaces s)))"
    using default_failed(5) by blast
  from d(1,3,4,5) have "\<exists>c. last tr' = (c, ret) \<and> resultChecked c"
    by (metis last_appendR prod.collapse)
  with sd1 ev m d(1,2,6) default_failed(1,3,5,6) have "?P sd1 r0 m d []"
    unfolding md_def [symmetric] by (intro conjI impI) simp_all
  then show ?thesis
    by blast
next
  case (stored r1 t1 t2 t3 r4)
  define md where "md = ModifyPhysicalNetworkPermission (mNetId s) (hd (mInterfaces s))
    (mPermission s) permission (mIsLocalNetwork s)"
  from destroySocketsLackingPermission_events [OF stored(1)] obtain sd1 where
    sd1: "t1 = tr @ sd1" "\<forall>e\<in>set sd1. isSockDiagCall (fst e)" "permission = PERMISSION_NONE \<longrightarrow> sd1 = []"
    by (auto split: if_splits)
  from modify_loop [OF stored(2)] obtain ev where ev: "t2 = t1 @ ev"
    "\<forall>e\<in>set ev. \<not> isSockDiagCall (fst e) \<and> \<not> isDefaultCall (fst e)"
    "\<forall>e\<in>set ev. resultChecked (fst e) \<longrightarrow> snd e = 0"
    by auto
  from modify_loop_first [OF stored(2) ne] ev(1) obtain r0 m where m: "ev = (md, r0) # m"
    unfolding md_def by auto
  with ev(3) have r0: "r0 = 0"
    by (simp add: md_def)
  have "\<exists>d. t3 = t2 @ d \<and> (\<forall>e\<in>set d. \<not> isSockDiagCall (fst e) \<and> isDefaultCall (fst e)) \<and>
          (\<forall>e\<in>set d. snd e = 0) \<and> (\<not> mIsDefault s \<longrightarrow> d = []) \<and>
          prefix (map fst d) (concat (map (defaultSwitch permission (mPermission s)) (mInterfaces s))) \<and>
          (mIsDefault s \<longrightarrow>
             map fst d = concat (map (defaultSwitch permission (mPermission s)) (mInterfaces s)))"
  proof (cases "mIsDefault s")
    case True
    with stored(3) have "forEachInterface (setPermission_default x s permission) (mInterfaces s) t2 = (0, t3)"
      by simp
    from default_loop [OF this] True show ?thesis
      by auto
  next
    case False
    with stored(3) show ?thesis
      by simp
  qed
  then obtain d where d: "t3 = t2 @ d" "\<forall>e\<in>set d. \<not> isSockDiagCall (fst e) \<and> isDefaultCall (fst e)"
    "\<forall>e\<in>set d. snd e = 0" "\<not> mIsDefault s \<longrightarrow> d = []"
    "prefix (map fst d) (concat (map (defaultSwitch permission (mPermission s)) (mInterfaces s)))"
    "mIsDefault s \<longrightarrow>
       map fst d = concat (map (defaultSwitch permission (mPermission s)) (mInterfaces s))"
    by blast
  from destroySocketsLackingPermission_events [OF stored(4)] obtain sd2 where
    sd2: "tr' = t3 @ sd2" "\<forall>e\<in>set sd2. isSockDiagCall (fst e)" "permission = PERMISSION_NONE \<longrightarrow> sd2 = []"
    by (auto split: if_splits)
  from sd1 ev m r0 d sd2 stored(1,5,6) have "?P sd1 r0 m d sd2"
    unfolding md_def [symmetric] by (intro conjI impI) auto
  then show ?thesis
    by blast
qed

lemma setPermission_cases [consumes 3, case_names events]:
  assumes new: "permission \<noteq> mPermission s" and ne: "mInterfaces s \<noteq> []"
    and run: "setPermission x permission s tr = (ret, s', tr')"
  obtains sd1 r0 m d sd2 where
    "snd (destroySocketsLackingPermission x s permission tr) = tr @ sd1"
    "tr' = tr @ sd1 @
       (ModifyPhysicalNetworkPermission (mNetId s) (hd (mInterfaces s)) (mPermission s)
          permission (mIsLocalNetwork s), r0) # m @ d @ sd2"
    "\<forall>e\<in>set (sd1 @ sd2). isSockDiagCall (fst e)"
    "permission = PERMISSION_NONE \<longrightarrow> sd1 = [] \<and> sd2 = []"
    "\<forall>e\<in>set m. \<not> isSockDiagCall (fst e) \<and> \<not> isDefaultCall (fst e)"
    "\<forall>e\<in>set d. \<not> isSockDiagCall (fst e) \<and> isDefaultCall (fst e)"
    "\<not> mIsDefault s \<longrightarrow> d = []"
    "prefix (map fst d) (concat (map (defaultSwitch permission (mPermission s)) (mInterfaces s)))"
    "ret = 0 \<longrightarrow> s' = s\<lparr>mPermission := permission\<rparr> \<and> r0 = 0 \<and>
       (\<forall>e\<in>set (m @ d). resultChecked (fst e) \<longrightarrow> snd e = 0) \<and>
       (mIsDefault s \<longrightarrow> map fst d =
          concat (map (defaultSwitch permission (mPermission s)) (mInterfaces s)))"
    "ret \<noteq> 0 \<longrightarrow> s' = s \<and> sd2 = [] \<and> (\<exists>c. last tr' = (c, ret) \<and> resultChecked c)"
  using setPermission_events [OF new ne run]
  by (elim exE conjE) (rule that)

lemma isSockDiagCall_kinds:
  "isSockDiagCall c \<Longrightarrow> \<not> resultChecked c \<and> \<not> isDefaultCall c"
  by (cases c) simp_all

lemma forEachInterface_exact:
  assumes body: "\<And>i t r t'. body i t = (r, t') \<Longrightarrow> \<exists>ev. t' = t @ ev \<and> (r = 0 \<longrightarrow> ev = f i)"
    and run: "forEachInterface body ifs tr = (ret, tr')"
  shows "\<exists>ev. tr' = tr @ ev \<and> (ret = 0 \<longrightarrow> ev = concat (map f ifs))"
proof (rule forEachInterface_summary
    [where S = "\<lambda>is r ev. r = 0 \<longrightarrow> ev = concat (map f is)", OF _ _ _ _ run])
  fix i t r t'
  assume "body i t = (r, t')"
  from body [OF this] show "\<exists>ev. t' = t @ ev \<and> (r = 0 \<longrightarrow> ev = concat (map f [i]))"
    by simp
qed auto

lemma forEachInterface_invoke:
  assumes run: "forEachInterface (\<lambda>i. invoke x (c i)) ifs tr = (ret, tr')"
  shows "(ret = 0 \<and> tr' = tr @ map (\<lambda>i. (c i, 0)) ifs) \<or>
         (ret \<noteq> 0 \<and> (\<exists>pre i post. ifs = pre @ i # post \<and>
            tr' = tr @ map (\<lambda>i. (c i, 0)) pre @ [(c i, ret)]))"
proof -
  define stopped where "stopped = (\<lambda>is (r :: int) ev.
      \<exists>pre i post. is = pre @ i # post \<and> ev = map (\<lambda>i. (c i, 0 :: int)) pre @ [(c i, r)])"
  define S where "S = (\<lambda>is r ev.
      if r = 0 then ev = map (\<lambda>i. (c i, 0 :: int)) is else stopped is r ev)"
  have stoppedI: "stopped (pre @ i # post) r (map (\<lambda>i. (c i, 0)) pre @ [(c i, r)])" for pre i post r
    unfolding stopped_def by blast
  have "\<exists>ev. tr' = tr @ ev \<and> S ifs ret ev"
  proof (rule forEachInterface_summary [where S = S, OF _ _ _ _ run])
    fix i t r t'
    assume "invoke x (c i) t = (r, t')"
    then have "t' = t @ [(c i, r)]"
      by (rule invoke_events)
    moreover have "S [i] r [(c i, r)]"
      using stoppedI [of "[]" i "[]" r] by (simp add: S_def)
    ultimately show "\<exists>ev. t' = t @ ev \<and> S [i] r ev"
      by blast
  next
    show "S [] 0 []"
      by (simp add: S_def)
  next
    fix is1 ev1 is2 r ev2
    assume 1: "S is1 0 ev1" and 2: "S is2 r ev2"
    from 1 have ev1: "ev1 = map (\<lambda>i. (c i, 0)) is1"
      by (simp add: S_def)
    show "S (is1 @ is2) r (ev1 @ ev2)"
    proof (cases "r = 0")
      case True
      with 2 ev1 show ?thesis
        by (simp add: S_def)
    next
      case False
      with 2 have "stopped is2 r ev2"
        by (simp add: S_def)
      then obtain pre i post where "is2 = pre @ i # post"
        "ev2 = map (\<lambda>i. (c i, 0)) pre @ [(c i, r)]"
        unfolding stopped_def by blast
      with ev1 stoppedI [of "is1 @ pre" i post r] have "stopped (is1 @ is2) r (ev1 @ ev2)"
        by simp
      with False show ?thesis
        by (simp add: S_def)
    qed
  next
    fix is1 r ev is2
    assume r: "r \<noteq> (0 :: int)" and "S is1 r ev"
    then have "stopped is1 r ev"
      by (simp add: S_def)
    then obtain pre i post where "is1 = pre @ i # post"
      "ev = map (\<lambda>i. (c i, 0)) pre @ [(c i, r)]"
      unfolding stopped_def by blast
    with stoppedI [of pre i "post @ is2" r] have "stopped (is1 @ is2) r ev"
      by simp
    with r show "S (is1 @ is2) r ev"
      by (simp add: S_def)
  qed
  then obtain ev where "tr' = tr @ ev" "S ifs ret ev"
    by blast
  then show ?thesis
    unfolding S_def stopped_def by (cases "ret = 0") simp_all
qed

lemma users_loop_shape:
  assumes valid: "isValidSubPriority x subPriority"
    and add: "addUsers x uidRanges subPriority s tr = (ra, sa, tra)"
    and rem: "removeUsers x uidRanges subPriority s tr = (rr, sr, trr)"
  shows "(if canAddUidRanges x (mUidRangeMap s) uidRanges
          then (ra = 0 \<and> sa = addToUidRangeMap uidRanges subPriority s \<and>
                tra = tr @ map (\<lambda>i. (AddUsersToPhysicalNetwork (mNetId s) i
                                   [subPriority \<mapsto> uidRanges] (mIsLocalNetwork s), 0))
                           (mInterfaces s)) \<or>
               (ra \<noteq> 0 \<and> sa = s \<and> mUidRangeMap sa = mUidRangeMap s \<and>
                (\<exists>pre i post. mInterfaces s = pre @ i # post \<and>
                   tra = tr @ map (\<lambda>i. (AddUsersToPhysicalNetwork (mNetId s) i
                                      [subPriority \<mapsto> uidRanges] (mIsLocalNetwork s), 0)) pre @
                         [(AddUsersToPhysicalNetwork (mNetId s) i
                             [subPriority \<mapsto> uidRanges] (mIsLocalNetwork s), ra)]))
          else ra = - EINVAL \<and> sa = s \<and> tra = tr) \<and>
         ((rr = 0 \<and> sr = removeFromUidRangeMap uidRanges subPriority s \<and>
           trr = tr @ map (\<lambda>i. (RemoveUsersFromPhysicalNetwork (mNetId s) i
                              [subPriority \<mapsto> uidRanges] (mIsLocalNetwork s), 0))
                      (mInterfaces s)) \<or>
          (rr \<noteq> 0 \<and> sr = s \<and> mUidRangeMap sr = mUidRangeMap s \<and>
           (\<exists>pre i post. mInterfaces s = pre @ i # post \<and>
              trr = tr @ map (\<lambda>i. (RemoveUsersFromPhysicalNetwork (mNetId s) i
                                 [subPriority \<mapsto> uidRanges] (mIsLocalNetwork s), 0)) pre @
                    [(RemoveUsersFromPhysicalNetwork (mNetId s) i
                        [subPriority \<mapsto> uidRanges] (mIsLocalNetwork s), rr)])))"
proof (intro conjI)
  let ?c = "\<lambda>i. AddUsersToPhysicalNetwork (mNetId s) i [subPriority \<mapsto> uidRanges] (mIsLocalNetwork s)"
  obtain r t where loop: "forEachInterface (\<lambda>i. invoke x (?c i)) (mInterfaces s) tr = (r, t)"
    by (cases "forEachInterface (\<lambda>i. invoke x (?c i)) (mInterfaces s) tr")
  show "if canAddUidRanges x (mUidRangeMap s) uidRanges
          then (ra = 0 \<and> sa = addToUidRangeMap uidRanges subPriority s \<and>
                tra = tr @ map (\<lambda>i. (?c i, 0)) (mInterfaces s)) \<or>
               (ra \<noteq> 0 \<and> sa = s \<and> mUidRangeMap sa = mUidRangeMap s \<and>
                (\<exists>pre i post. mInterfaces s = pre @ i # post \<and>
                   tra = tr @ map (\<lambda>i. (?c i, 0)) pre @ [(?c i, ra)]))
          else ra = - EINVAL \<and> sa = s \<and> tra = tr"
  proof (cases "canAddUidRanges x (mUidRangeMap s) uidRanges")
    case False
    with add show ?thesis
      by (simp add: addUsers_def)
  next
    case True
    with add valid loop have res: "ra = r" "tra = t"
      "sa = (if r = 0 then addToUidRangeMap uidRanges subPriority s else s)"
      by (auto simp: addUsers_def split: if_splits)
    with forEachInterface_invoke [OF loop] True show ?thesis
      by auto
  qed
next
  let ?c = "\<lambda>i. RemoveUsersFromPhysicalNetwork (mNetId s) i [subPriority \<mapsto> uidRanges] (mIsLocalNetwork s)"
  obtain r t where loop: "forEachInterface (\<lambda>i. invoke x (?c i)) (mInterfaces s) tr = (r, t)"
    by (cases "forEachInterface (\<lambda>i. invoke x (?c i)) (mInterfaces s) tr")
  with rem valid have res: "rr = r" "trr = t"
    "sr = (if r = 0 then removeFromUidRangeMap uidRanges subPriority s else s)"
    by (auto simp: removeUsers_def split: if_splits)
  with forEachInterface_invoke [OF loop]
  show "(rr = 0 \<and> sr = removeFromUidRangeMap uidRanges subPriority s \<and>
           trr = tr @ map (\<lambda>i. (?c i, 0)) (mInterfaces s)) \<or>
          (rr \<noteq> 0 \<and> sr = s \<and> mUidRangeMap sr = mUidRangeMap s \<and>
           (\<exists>pre i post. mInterfaces s = pre @ i # post \<and>
              trr = tr @ map (\<lambda>i. (?c i, 0)) pre @ [(?c i, rr)]))"
    by auto
qed

lemma addToDefault_loop:
  assumes run: "forEachInterface (\<lambda>i. addToDefault x n i p) ifs tr = (ret, tr')"
  shows "\<exists>ev. tr' = tr @ ev \<and>
           (ret \<noteq> 0 \<longrightarrow> ev \<noteq> [] \<and> snd (last ev) = ret) \<and>
           (ret = 0 \<longrightarrow> ev = concat (map (\<lambda>i. [(AddInterfaceToDefaultNetwork i p, 0),
                                                 (AddFallthrough i p, 0)]) ifs))"
proof -
  have "\<exists>ev. tr' = tr @ ev \<and> (ret \<noteq> 0 \<longrightarrow> ev \<noteq> [] \<and> snd (last ev) = ret \<and> True)"
    by (rule forEachInterface_failed [OF _ run]) (auto dest!: addToDefault_events split: if_splits)
  moreover have "\<exists>ev. tr' = tr @ ev \<and>
      (ret = 0 \<longrightarrow> ev = concat (map (\<lambda>i. [(AddInterfaceToDefaultNetwork i p, 0),
                                            (AddFallthrough i p, 0)]) ifs))"
    by (rule forEachInterface_exact [OF _ run]) (auto dest!: addToDefault_events split: if_splits)
  ultimately show ?thesis
    by auto
qed

lemma removeFromDefault_loop:
  assumes run: "forEachInterface (\<lambda>i. removeFromDefault x n i p) ifs tr = (ret, tr')"
  shows "\<exists>ev. tr' = tr @ ev \<and>
           (ret \<noteq> 0 \<longrightarrow> ev \<noteq> [] \<and> snd (last ev) = ret) \<and>
           (ret = 0 \<longrightarrow> ev = concat (map (\<lambda>i. [(RemoveInterfaceFromDefaultNetwork i p, 0),
                                                 (RemoveFallthrough i p, 0)]) ifs))"
proof -
  have "\<exists>ev. tr' = tr @ ev \<and> (ret \<noteq> 0 \<longrightarrow> ev \<noteq> [] \<and> snd (last ev) = ret \<and> True)"
    by (rule forEachInterface_failed [OF _ run]) (auto dest!: removeFromDefault_events split: if_splits)
  moreover have "\<exists>ev. tr' = tr @ ev \<and>
      (ret = 0 \<longrightarrow> ev = concat (map (\<lambda>i. [(RemoveInterfaceFromDefaultNetwork i p, 0),
                                            (RemoveFallthrough i p, 0)]) ifs))"
    by (rule forEachInterface_exact [OF _ run]) (auto dest!: removeFromDefault_events split: if_splits)
  ultimately show ?thesis
    by auto
qed

lemma delegate_calls_of_toggle:
  "filter isDelegateCall (concat (map (\<lambda>i. [AddInterfaceToDefaultNetwork i p, AddFallthrough i p]) ifs)) =
     map (\<lambda>i. AddFallthrough i p) ifs"
  "filter isDelegateCall
     (concat (map (\<lambda>i. [RemoveInterfaceFromDefaultNetwork i p, RemoveFallthrough i p]) ifs)) =
     map (\<lambda>i. RemoveFallthrough i p) ifs"
  by (induction ifs) simp_all

text \<open>
  The list that stands for \<^verbatim>\<open>mInterfaces\<close> stays ascending and without duplicates under
  \<^verbatim>\<open>addInterface\<close> and \<^verbatim>\<open>removeInterface\<close>, as the \<^verbatim>\<open>std::set\<close> does.
\<close>

lemma interfaces_stay_a_set:
  assumes "sorted (mInterfaces s)" and "distinct (mInterfaces s)"
  shows "sorted (mInterfaces (fst (snd (addInterface x interface s tr)))) \<and>
         distinct (mInterfaces (fst (snd (addInterface x interface s tr)))) \<and>
         sorted (mInterfaces (fst (snd (removeInterface x interface s tr)))) \<and>
         distinct (mInterfaces (fst (snd (removeInterface x interface s tr))))"
  using assms
  by (auto simp: addInterface_def removeInterface_def hasInterface_def sorted_insort
      distinct_insort removeAll_filter_not_eq sorted_filter [of id, simplified]
      split: prod.splits)

text \<open>The definitions that evaluate a run of \<^verbatim>\<open>setPermission\<close> on sample values.\<close>

lemmas run_defs =
  setPermission_def sampleNetwork_def sampleExternals_def
  destroySocketsLackingPermission_def setPermission_modify_def setPermission_default_def
  addToDefault_def removeFromDefault_def invoke_def invalidateRouteCache_def
  invalidateRouteCache_dst_def EBADFD_def

section \<open>setPermission and the socket diagnostics\<close>

text \<open>
  C1, as the specification states it: with a new permission and an interface attached, a
  failure of the socket diagnostics to open, or of the closure step, makes
  \<^verbatim>\<open>setPermission\<close> fail with that error. On the code it does not.
  With \<^verbatim>\<open>SockDiag::open\<close> failing and every other call succeeding,
  \<^verbatim>\<open>destroySocketsLackingPermission\<close> returns
  \<^verbatim>\<open>-EBADFD\<close>, and \<^verbatim>\<open>setPermission\<close> goes
  on, tries the diagnostics a second time, stores the new permission and returns 0.
\<close>

theorem setPermission_sockdiag_failure_counterexample:
  "destroySocketsLackingPermission sockDiagDown (sampleNetwork [''eth0''] PERMISSION_NONE False)
     PERMISSION_SYSTEM [] = (- EBADFD, [(SockDiagOpen, 0)]) \<and>
   - EBADFD \<noteq> 0 \<and>
   setPermission sockDiagDown PERMISSION_SYSTEM (sampleNetwork [''eth0''] PERMISSION_NONE False) [] =
     (0, sampleNetwork [''eth0''] PERMISSION_SYSTEM False,
      [(SockDiagOpen, 0),
       (ModifyPhysicalNetworkPermission 100 ''eth0'' PERMISSION_NONE PERMISSION_SYSTEM False, 0),
       (AddRoute ''eth0'' ''0.0.0.0/0'' ''throw'' INTERFACE 0 100000, 0),
       (RemoveRoute ''eth0'' ''0.0.0.0/0'' ''throw'' INTERFACE 100000, 0),
       (AddRoute ''eth0'' ''::/0'' ''throw'' INTERFACE 0 100000, 0),
       (RemoveRoute ''eth0'' ''::/0'' ''throw'' INTERFACE 100000, 0),
       (SockDiagOpen, 0)])"
  by (simp add: run_defs sockDiagDown_def)

text \<open>
  C1, as the code has it. For a new permission and at least one interface:
  \<^verbatim>\<open>destroySocketsLackingPermission\<close> returns \<^verbatim>\<open>-EBADFD\<close> when the diagnostics do not
  open, and the result of the closure step when they do; \<^verbatim>\<open>setPermission\<close> drops that
  value: whatever it was, the next call is \<^verbatim>\<open>modifyPhysicalNetworkPermission\<close> for the
  first interface; and a non-zero value returned by \<^verbatim>\<open>setPermission\<close> is the result of
  the last call it made, which is one of \<^verbatim>\<open>modifyPhysicalNetworkPermission\<close>,
  \<^verbatim>\<open>addInterfaceToDefaultNetwork\<close>, \<^verbatim>\<open>addFallthrough\<close>,
  \<^verbatim>\<open>removeInterfaceFromDefaultNetwork\<close> and \<^verbatim>\<open>removeFallthrough\<close>, never a call to the
  socket diagnostics.
\<close>

theorem setPermission_drops_sockdiag_result:
  assumes new: "permission \<noteq> mPermission s" and ne: "mInterfaces s \<noteq> []"
    and run: "setPermission x permission s tr = (ret, s', tr')"
  shows "(permission \<noteq> PERMISSION_NONE \<and> \<not> sockDiagOpens x tr \<longrightarrow>
            destroySocketsLackingPermission x s permission tr = (- EBADFD, tr @ [(SockDiagOpen, 0)])) \<and>
         (permission \<noteq> PERMISSION_NONE \<and> sockDiagOpens x tr \<longrightarrow>
            (\<exists>r. destroySocketsLackingPermission x s permission tr =
               (r, tr @ [(SockDiagOpen, 1),
                         (SockDiagDestroySocketsLackingPermission (mNetId s) permission True, r)]))) \<and>
         (\<exists>sd r0 ev.
            snd (destroySocketsLackingPermission x s permission tr) = tr @ sd \<and>
            tr' = tr @ sd @
              (ModifyPhysicalNetworkPermission (mNetId s) (hd (mInterfaces s)) (mPermission s)
                 permission (mIsLocalNetwork s), r0) # ev) \<and>
         (ret \<noteq> 0 \<longrightarrow> (\<exists>c. last tr' = (c, ret) \<and> resultChecked c))"
proof (intro conjI)
  show "permission \<noteq> PERMISSION_NONE \<and> \<not> sockDiagOpens x tr \<longrightarrow>
          destroySocketsLackingPermission x s permission tr = (- EBADFD, tr @ [(SockDiagOpen, 0)])"
    by (simp add: destroySocketsLackingPermission_def)
  show "permission \<noteq> PERMISSION_NONE \<and> sockDiagOpens x tr \<longrightarrow>
          (\<exists>r. destroySocketsLackingPermission x s permission tr =
             (r, tr @ [(SockDiagOpen, 1),
                       (SockDiagDestroySocketsLackingPermission (mNetId s) permission True, r)]))"
    by (simp add: destroySocketsLackingPermission_def invoke_def)
  from new ne run show "\<exists>sd r0 ev.
            snd (destroySocketsLackingPermission x s permission tr) = tr @ sd \<and>
            tr' = tr @ sd @
              (ModifyPhysicalNetworkPermission (mNetId s) (hd (mInterfaces s)) (mPermission s)
                 permission (mIsLocalNetwork s), r0) # ev"
  proof (cases rule: setPermission_cases)
    case (events sd1 r0 m d sd2)
    from events(1,2) show ?thesis
      by blast
  qed
  from new ne run show "ret \<noteq> 0 \<longrightarrow> (\<exists>c. last tr' = (c, ret) \<and> resultChecked c)"
  proof (cases rule: setPermission_cases)
    case (events sd1 r0 m d sd2)
    from events(10) show ?thesis
      by blast
  qed
qed

theorem setPermission_drops_sockdiag_result_witness:
  "destroySocketsLackingPermission allFail (sampleNetwork [''eth0''] PERMISSION_NONE False)
     PERMISSION_SYSTEM [] = (- EBADFD, [(SockDiagOpen, 0)]) \<and>
   (\<exists>sd r0 ev.
      snd (destroySocketsLackingPermission allFail (sampleNetwork [''eth0''] PERMISSION_NONE False)
             PERMISSION_SYSTEM []) = sd \<and>
      [(SockDiagOpen, 0),
       (ModifyPhysicalNetworkPermission 100 ''eth0'' PERMISSION_NONE PERMISSION_SYSTEM False, - 1)] =
      sd @ (ModifyPhysicalNetworkPermission 100 ''eth0'' PERMISSION_NONE PERMISSION_SYSTEM False, r0) # ev) \<and>
   (\<exists>c. (ModifyPhysicalNetworkPermission 100 ''eth0'' PERMISSION_NONE PERMISSION_SYSTEM False, - 1) =
           (c, - 1 :: int) \<and> resultChecked c)"
proof -
  have run: "setPermission allFail PERMISSION_SYSTEM (sampleNetwork [''eth0''] PERMISSION_NONE False) [] =
      (- 1, sampleNetwork [''eth0''] PERMISSION_NONE False,
       [(SockDiagOpen, 0),
        (ModifyPhysicalNetworkPermission 100 ''eth0'' PERMISSION_NONE PERMISSION_SYSTEM False, - 1)])"
    by (simp add: run_defs allFail_def)
  have new: "PERMISSION_SYSTEM \<noteq> mPermission (sampleNetwork [''eth0''] PERMISSION_NONE False)"
    and ne: "mInterfaces (sampleNetwork [''eth0''] PERMISSION_NONE False) \<noteq> []"
    by (simp_all add: sampleNetwork_def)
  have "\<not> sockDiagOpens allFail []"
    by (simp add: allFail_def sampleExternals_def)
  with setPermission_drops_sockdiag_result [OF new ne run] show ?thesis
    by (simp add: sampleNetwork_def)
qed

section \<open>setPermission: when the permission is stored\<close>




section \<open>setPermission on the default network\<close>

text \<open>
  C3. On a network that is the default, \<^verbatim>\<open>setPermission\<close> with a new permission makes
  its default-network and fallthrough calls in this order and no other: for each
  interface in turn, \<^verbatim>\<open>addInterfaceToDefaultNetwork\<close> and \<^verbatim>\<open>addFallthrough\<close> under the
  new permission, then \<^verbatim>\<open>removeInterfaceFromDefaultNetwork\<close> and \<^verbatim>\<open>removeFallthrough\<close>
  under the old one. The calls made are always a prefix of that sequence (a failure
  cuts it short), and the whole of it when 0 is returned; so each removal under the old
  permission comes after the registration of the same interface under the new one.
\<close>

theorem setPermission_default_add_before_remove:
  assumes dflt: "mIsDefault s" and new: "permission \<noteq> mPermission s"
    and run: "setPermission x permission s tr = (ret, s', tr')"
  shows "\<exists>ev. tr' = tr @ ev \<and>
           prefix (filter isDefaultCall (map fst ev))
             (concat (map (\<lambda>interface.
                [AddInterfaceToDefaultNetwork interface permission,
                 AddFallthrough interface permission,
                 RemoveInterfaceFromDefaultNetwork interface (mPermission s),
                 RemoveFallthrough interface (mPermission s)]) (mInterfaces s))) \<and>
           (ret = 0 \<longrightarrow> filter isDefaultCall (map fst ev) =
              concat (map (\<lambda>interface.
                [AddInterfaceToDefaultNetwork interface permission,
                 AddFallthrough interface permission,
                 RemoveInterfaceFromDefaultNetwork interface (mPermission s),
                 RemoveFallthrough interface (mPermission s)]) (mInterfaces s)))"
proof (cases "mInterfaces s = []")
  case True
  with new run have "tr' = tr @ []" "ret = 0"
    by (simp_all add: setPermission_def)
  with True show ?thesis
    by (intro exI [of _ "[]"]) simp
next
  case False
  with new show ?thesis
    using run
  proof (cases rule: setPermission_cases)
    case (events sd1 r0 m d sd2)
    let ?md = "ModifyPhysicalNetworkPermission (mNetId s) (hd (mInterfaces s)) (mPermission s)
          permission (mIsLocalNetwork s)"
    define ev where "ev = sd1 @ (?md, r0) # m @ d @ sd2"
    have tr': "tr' = tr @ ev"
      using events(2) by (simp add: ev_def)
    have sd1: "filter isDefaultCall (map fst sd1) = []"
      using events(3) isSockDiagCall_kinds by (auto simp: filter_empty_conv)
    have sd2: "filter isDefaultCall (map fst sd2) = []"
      using events(3) isSockDiagCall_kinds by (auto simp: filter_empty_conv)
    have m: "filter isDefaultCall (map fst m) = []"
      using events(5) by (auto simp: filter_empty_conv)
    have d: "filter isDefaultCall (map fst d) = map fst d"
      using events(6) by (auto simp: filter_id_conv)
    have "filter isDefaultCall (map fst ev) = map fst d"
      by (simp add: ev_def sd1 sd2 m d)
    moreover have "defaultSwitch permission (mPermission s) =
        (\<lambda>interface.
           [AddInterfaceToDefaultNetwork interface permission,
            AddFallthrough interface permission,
            RemoveInterfaceFromDefaultNetwork interface (mPermission s),
            RemoveFallthrough interface (mPermission s)])"
      by (rule ext) (simp add: defaultSwitch_def)
    ultimately show ?thesis
      using events(8,9) dflt tr' by (intro exI [of _ ev]) simp
  qed
qed

theorem setPermission_default_add_before_remove_witness:
  "\<exists>ev. snd (snd (setPermission allSucceed PERMISSION_SYSTEM
              (sampleNetwork [''eth0'', ''wlan0''] PERMISSION_NONE True) [])) = [] @ ev \<and>
      filter isDefaultCall (map fst ev) =
        [AddInterfaceToDefaultNetwork ''eth0'' PERMISSION_SYSTEM,
         AddFallthrough ''eth0'' PERMISSION_SYSTEM,
         RemoveInterfaceFromDefaultNetwork ''eth0'' PERMISSION_NONE,
         RemoveFallthrough ''eth0'' PERMISSION_NONE,
         AddInterfaceToDefaultNetwork ''wlan0'' PERMISSION_SYSTEM,
         AddFallthrough ''wlan0'' PERMISSION_SYSTEM,
         RemoveInterfaceFromDefaultNetwork ''wlan0'' PERMISSION_NONE,
         RemoveFallthrough ''wlan0'' PERMISSION_NONE]"
proof -
  let ?s = "sampleNetwork [''eth0'', ''wlan0''] PERMISSION_NONE True"
  obtain s' tr' where run: "setPermission allSucceed PERMISSION_SYSTEM ?s [] = (0, s', tr')"
    by (simp add: run_defs allSucceed_def)
  have dflt: "mIsDefault ?s" and new: "PERMISSION_SYSTEM \<noteq> mPermission ?s"
    by (simp_all add: sampleNetwork_def)
  from setPermission_default_add_before_remove [OF dflt new run] run show ?thesis
    by (simp add: sampleNetwork_def)
qed

section \<open>removeInterface on the default network\<close>

text \<open>
  C4. \<^verbatim>\<open>removeInterface\<close> on a default network, for an attached interface: the calls
  made are a prefix of \<^verbatim>\<open>removeInterfaceFromDefaultNetwork\<close>, \<^verbatim>\<open>removeFallthrough\<close>,
  \<^verbatim>\<open>removeInterfaceFromPhysicalNetwork\<close>, in this order, so the removals from the
  default network come before the removal from the physical network. If every call
  made returned 0, all three were made, 0 is returned and the name is erased from the
  set. If one returned a non-zero value, it is the last one made, that value is
  returned and the state, so also the set, is unchanged.
\<close>

theorem removeInterface_order_and_erase:
  assumes dflt: "mIsDefault s" and attached: "interface \<in> set (mInterfaces s)"
    and run: "removeInterface x interface s tr = (ret, s', tr')"
  shows "\<exists>ev. tr' = tr @ ev \<and> ev \<noteq> [] \<and>
           prefix (map fst ev)
             [RemoveInterfaceFromDefaultNetwork interface (mPermission s),
              RemoveFallthrough interface (mPermission s),
              RemoveInterfaceFromPhysicalNetwork (mNetId s) interface (mPermission s)
                (mUidRangeMap s) (mIsLocalNetwork s)] \<and>
           ((\<forall>e\<in>set ev. snd e = 0) \<longrightarrow>
              ret = 0 \<and> length ev = 3 \<and>
              s' = s\<lparr>mInterfaces := removeAll interface (mInterfaces s)\<rparr> \<and>
              interface \<notin> set (mInterfaces s')) \<and>
           ((\<exists>e\<in>set ev. snd e \<noteq> 0) \<longrightarrow>
              ret \<noteq> 0 \<and> snd (last ev) = ret \<and> s' = s \<and> mInterfaces s' = mInterfaces s)"
proof -
  obtain r1 t1 where a: "removeFromDefault x (mNetId s) interface (mPermission s) tr = (r1, t1)"
    by (cases "removeFromDefault x (mNetId s) interface (mPermission s) tr")
  from removeFromDefault_events [OF a] obtain ev1 where ev1: "t1 = tr @ ev1"
    "if r1 = 0
     then ev1 = [(RemoveInterfaceFromDefaultNetwork interface (mPermission s), 0),
                 (RemoveFallthrough interface (mPermission s), 0)]
     else ev1 = [(RemoveInterfaceFromDefaultNetwork interface (mPermission s), r1)] \<or>
          ev1 = [(RemoveInterfaceFromDefaultNetwork interface (mPermission s), 0),
                 (RemoveFallthrough interface (mPermission s), r1)]"
    by blast
  show ?thesis
  proof (cases "r1 = 0")
    case False
    with run a dflt attached have "ret = r1" "s' = s" "tr' = t1"
      by (simp_all add: removeInterface_def hasInterface_def)
    with ev1 False show ?thesis
      by (intro exI [of _ ev1]) auto
  next
    case True
    let ?rm = "RemoveInterfaceFromPhysicalNetwork (mNetId s) interface (mPermission s)
                (mUidRangeMap s) (mIsLocalNetwork s)"
    obtain r2 t2 where b: "invoke x ?rm t1 = (r2, t2)"
      by (cases "invoke x ?rm t1")
    then have t2: "t2 = t1 @ [(?rm, r2)]"
      by (rule invoke_events)
    from run a b dflt attached True have res: "ret = r2" "tr' = t2"
      "s' = (if r2 = 0 then s\<lparr>mInterfaces := removeAll interface (mInterfaces s)\<rparr> else s)"
      by (auto simp: removeInterface_def hasInterface_def split: if_splits)
    from ev1 True t2 res show ?thesis
      by (intro exI [of _ "ev1 @ [(?rm, r2)]"]) auto
  qed
qed

theorem removeInterface_order_and_erase_witness:
  "\<exists>ev. [(RemoveInterfaceFromDefaultNetwork ''eth0'' PERMISSION_NONE, 0 :: int),
          (RemoveFallthrough ''eth0'' PERMISSION_NONE, 0),
          (RemoveInterfaceFromPhysicalNetwork 100 ''eth0'' PERMISSION_NONE Map.empty False, 0)] = [] @ ev \<and>
        length ev = 3 \<and>
        fst (removeInterface allSucceed ''eth0'' (sampleNetwork [''eth0''] PERMISSION_NONE True) []) = 0 \<and>
        ''eth0'' \<notin> set (mInterfaces
           (fst (snd (removeInterface allSucceed ''eth0'' (sampleNetwork [''eth0''] PERMISSION_NONE True) []))))"
proof -
  let ?s = "sampleNetwork [''eth0''] PERMISSION_NONE True"
  have run: "removeInterface allSucceed ''eth0'' ?s [] =
      (0, sampleNetwork [] PERMISSION_NONE True,
       [(RemoveInterfaceFromDefaultNetwork ''eth0'' PERMISSION_NONE, 0),
        (RemoveFallthrough ''eth0'' PERMISSION_NONE, 0),
        (RemoveInterfaceFromPhysicalNetwork 100 ''eth0'' PERMISSION_NONE Map.empty False, 0)])"
    by (simp add: removeInterface_def hasInterface_def sampleNetwork_def allSucceed_def
        sampleExternals_def removeFromDefault_def invoke_def)
  have dflt: "mIsDefault ?s" and attached: "''eth0'' \<in> set (mInterfaces ?s)"
    by (simp_all add: sampleNetwork_def)
  from removeInterface_order_and_erase [OF dflt attached run] run show ?thesis
    by (simp add: sampleNetwork_def)
qed

section \<open>addUsers and removeUsers\<close>

text \<open>
  C5. \<^verbatim>\<open>addUsers\<close> and \<^verbatim>\<open>removeUsers\<close> with a valid sub-priority. Either every
  interface's call returned 0, in the order of the set, 0 is returned and the range map
  is the one \<^verbatim>\<open>addToUidRangeMap\<close> (\<^verbatim>\<open>removeFromUidRangeMap\<close>) gives; or the calls stop
  at the first interface whose call returned a non-zero value: the interfaces before it
  returned 0, none after it is called, that value is what the function returns, and
  the state, so also the range map, is unchanged. (\<^verbatim>\<open>addUsers\<close> whose ranges
  \<^verbatim>\<open>canAddUidRanges\<close> refuses returns \<^verbatim>\<open>-EINVAL\<close> before the loop.)
\<close>

theorem users_loop_is_fail_fast:
  assumes valid: "isValidSubPriority x subPriority"
    and add: "addUsers x uidRanges subPriority s tr = (ra, sa, tra)"
    and rem: "removeUsers x uidRanges subPriority s tr = (rr, sr, trr)"
  shows "(if canAddUidRanges x (mUidRangeMap s) uidRanges
          then (ra = 0 \<and> sa = addToUidRangeMap uidRanges subPriority s \<and>
                tra = tr @ map (\<lambda>i. (AddUsersToPhysicalNetwork (mNetId s) i
                                   [subPriority \<mapsto> uidRanges] (mIsLocalNetwork s), 0))
                           (mInterfaces s)) \<or>
               (ra \<noteq> 0 \<and> sa = s \<and> mUidRangeMap sa = mUidRangeMap s \<and>
                (\<exists>pre i post. mInterfaces s = pre @ i # post \<and>
                   tra = tr @ map (\<lambda>i. (AddUsersToPhysicalNetwork (mNetId s) i
                                      [subPriority \<mapsto> uidRanges] (mIsLocalNetwork s), 0)) pre @
                         [(AddUsersToPhysicalNetwork (mNetId s) i
                             [subPriority \<mapsto> uidRanges] (mIsLocalNetwork s), ra)]))
          else ra = - EINVAL \<and> sa = s \<and> tra = tr) \<and>
         ((rr = 0 \<and> sr = removeFromUidRangeMap uidRanges subPriority s \<and>
           trr = tr @ map (\<lambda>i. (RemoveUsersFromPhysicalNetwork (mNetId s) i
                              [subPriority \<mapsto> uidRanges] (mIsLocalNetwork s), 0))
                      (mInterfaces s)) \<or>
          (rr \<noteq> 0 \<and> sr = s \<and> mUidRangeMap sr = mUidRangeMap s \<and>
           (\<exists>pre i post. mInterfaces s = pre @ i # post \<and>
              trr = tr @ map (\<lambda>i. (RemoveUsersFromPhysicalNetwork (mNetId s) i
                                 [subPriority \<mapsto> uidRanges] (mIsLocalNetwork s), 0)) pre @
                    [(RemoveUsersFromPhysicalNetwork (mNetId s) i
                        [subPriority \<mapsto> uidRanges] (mIsLocalNetwork s), rr)])))"
  using valid add rem by (rule users_loop_shape)

theorem users_loop_is_fail_fast_witness:
  "(\<exists>pre i post. [''eth0'', ''wlan0'', ''zt0''] = pre @ i # post \<and>
      snd (snd (addUsers secondCallFails {(1000, 1999)} 10
                  (sampleNetwork [''eth0'', ''wlan0'', ''zt0''] PERMISSION_NONE False) [])) =
      [] @ map (\<lambda>i. (AddUsersToPhysicalNetwork 100 i [10 \<mapsto> {(1000, 1999)}] False, 0)) pre @
           [(AddUsersToPhysicalNetwork 100 i [10 \<mapsto> {(1000, 1999)}] False, - 5)]) \<and>
   fst (addUsers secondCallFails {(1000, 1999)} 10
          (sampleNetwork [''eth0'', ''wlan0'', ''zt0''] PERMISSION_NONE False) []) = - 5 \<and>
   removeUsers secondCallFails {(1000, 1999)} 10
     (sampleNetwork [''eth0'', ''wlan0'', ''zt0''] PERMISSION_NONE False) [] =
     (- 5, sampleNetwork [''eth0'', ''wlan0'', ''zt0''] PERMISSION_NONE False,
      [(RemoveUsersFromPhysicalNetwork 100 ''eth0'' [10 \<mapsto> {(1000, 1999)}] False, 0),
       (RemoveUsersFromPhysicalNetwork 100 ''wlan0'' [10 \<mapsto> {(1000, 1999)}] False, - 5)])"
proof -
  let ?s = "sampleNetwork [''eth0'', ''wlan0'', ''zt0''] PERMISSION_NONE False"
  have valid: "isValidSubPriority secondCallFails 10"
    by (simp add: isValidSubPriority_def secondCallFails_def sampleExternals_def)
  have add: "addUsers secondCallFails {(1000, 1999)} 10 ?s [] =
      (- 5, ?s,
       [(AddUsersToPhysicalNetwork 100 ''eth0'' [10 \<mapsto> {(1000, 1999)}] False, 0),
        (AddUsersToPhysicalNetwork 100 ''wlan0'' [10 \<mapsto> {(1000, 1999)}] False, - 5)])"
    using valid
    by (simp add: addUsers_def secondCallFails_def sampleExternals_def sampleNetwork_def invoke_def)
  have rem: "removeUsers secondCallFails {(1000, 1999)} 10 ?s [] =
      (- 5, ?s,
       [(RemoveUsersFromPhysicalNetwork 100 ''eth0'' [10 \<mapsto> {(1000, 1999)}] False, 0),
        (RemoveUsersFromPhysicalNetwork 100 ''wlan0'' [10 \<mapsto> {(1000, 1999)}] False, - 5)])"
    using valid
    by (simp add: removeUsers_def secondCallFails_def sampleExternals_def sampleNetwork_def invoke_def)
  have can: "canAddUidRanges secondCallFails (mUidRangeMap ?s) {(1000, 1999)}"
    by (simp add: secondCallFails_def sampleExternals_def)
  from users_loop_is_fail_fast [OF valid add rem] can add rem show ?thesis
    by (simp add: sampleNetwork_def)
qed

text \<open>
  C6, as the specification states it: \<^verbatim>\<open>addUsers\<close> and
  \<^verbatim>\<open>removeUsers\<close> fail with \<^verbatim>\<open>-EINVAL\<close>,
  call no collaborator and leave the range map unchanged exactly when the sub-priority is
  invalid. For \<^verbatim>\<open>addUsers\<close> the code has a second guard: with the
  valid sub-priority 10 and ranges that \<^verbatim>\<open>canAddUidRanges\<close>
  refuses, it returns \<^verbatim>\<open>-EINVAL\<close>, calls nothing and leaves the
  state unchanged.
\<close>

theorem addUsers_rejects_valid_priority_counterexample:
  "isValidSubPriority rejectRegistered 10 \<and>
   addUsers rejectRegistered {(1000, 1999)} 10
     ((sampleNetwork [''eth0''] PERMISSION_NONE False)\<lparr>mUidRangeMap := [10 \<mapsto> {(1000, 1999)}]\<rparr>) [] =
     (- EINVAL,
      (sampleNetwork [''eth0''] PERMISSION_NONE False)\<lparr>mUidRangeMap := [10 \<mapsto> {(1000, 1999)}]\<rparr>,
      [])"
  by (simp add: isValidSubPriority_def rejectRegistered_def sampleExternals_def addUsers_def
      sampleNetwork_def)

text \<open>
  C6, as the code has it. \<^verbatim>\<open>isValidSubPriority\<close> is a function of the value and the
  three constants only: the value lies in the closed range from
  \<^verbatim>\<open>SUB_PRIORITY_HIGHEST\<close> to \<^verbatim>\<open>SUB_PRIORITY_LOWEST\<close> or equals
  \<^verbatim>\<open>SUB_PRIORITY_NO_DEFAULT\<close>. With an invalid value both functions return \<^verbatim>\<open>-EINVAL\<close>,
  call no collaborator and leave the state, so also the range map, unchanged; for
  \<^verbatim>\<open>removeUsers\<close> that outcome occurs exactly when the value is invalid, and with a
  valid value it never returns \<^verbatim>\<open>-EINVAL\<close> without having called a collaborator. With
  a valid value, \<^verbatim>\<open>addUsers\<close> returns \<^verbatim>\<open>-EINVAL\<close> with no collaborator called and the
  state, so also the range map, unchanged exactly when \<^verbatim>\<open>canAddUidRanges\<close> refuses the
  ranges; and already returning \<^verbatim>\<open>-EINVAL\<close> with no collaborator called happens only
  then.
\<close>

theorem invalid_sub_priority_is_rejected:
  "isValidSubPriority x subPriority =
     ((sint (SUB_PRIORITY_HIGHEST x) \<le> sint subPriority \<and>
       sint subPriority \<le> sint (SUB_PRIORITY_LOWEST x)) \<or>
      subPriority = SUB_PRIORITY_NO_DEFAULT x) \<and>
   (\<not> isValidSubPriority x subPriority \<longrightarrow>
      addUsers x uidRanges subPriority s tr = (- EINVAL, s, tr) \<and>
      removeUsers x uidRanges subPriority s tr = (- EINVAL, s, tr)) \<and>
   (isValidSubPriority x subPriority \<longrightarrow>
      \<not> (fst (removeUsers x uidRanges subPriority s tr) = - EINVAL \<and>
         snd (snd (removeUsers x uidRanges subPriority s tr)) = tr)) \<and>
   (isValidSubPriority x subPriority \<longrightarrow>
      (addUsers x uidRanges subPriority s tr = (- EINVAL, s, tr)) =
      (\<not> canAddUidRanges x (mUidRangeMap s) uidRanges)) \<and>
   (isValidSubPriority x subPriority \<longrightarrow>
      (fst (addUsers x uidRanges subPriority s tr) = - EINVAL \<and>
       snd (snd (addUsers x uidRanges subPriority s tr)) = tr) =
      (\<not> canAddUidRanges x (mUidRangeMap s) uidRanges)) \<and>
   (removeUsers x uidRanges subPriority s tr = (- EINVAL, s, tr)) =
     (\<not> isValidSubPriority x subPriority)"
proof -
  have weak: "(fst (addUsers x uidRanges subPriority s tr) = - EINVAL \<and>
       snd (snd (addUsers x uidRanges subPriority s tr)) = tr) =
      (\<not> canAddUidRanges x (mUidRangeMap s) uidRanges)"
    and rem_valid: "\<not> (fst (removeUsers x uidRanges subPriority s tr) = - EINVAL \<and>
         snd (snd (removeUsers x uidRanges subPriority s tr)) = tr)"
    if valid: "isValidSubPriority x subPriority"
  proof -
    obtain ra sa tra where add: "addUsers x uidRanges subPriority s tr = (ra, sa, tra)"
      by (cases "addUsers x uidRanges subPriority s tr")
    obtain rr sr trr where rem: "removeUsers x uidRanges subPriority s tr = (rr, sr, trr)"
      by (cases "removeUsers x uidRanges subPriority s tr")
    note shape = users_loop_shape [OF valid add rem]
    show "\<not> (fst (removeUsers x uidRanges subPriority s tr) = - EINVAL \<and>
           snd (snd (removeUsers x uidRanges subPriority s tr)) = tr)"
      using shape rem by (auto simp: EINVAL_def)
    show "(fst (addUsers x uidRanges subPriority s tr) = - EINVAL \<and>
         snd (snd (addUsers x uidRanges subPriority s tr)) = tr) =
        (\<not> canAddUidRanges x (mUidRangeMap s) uidRanges)"
      using shape add by (auto simp: EINVAL_def split: if_splits)
  qed
  have invalid: "addUsers x uidRanges subPriority s tr = (- EINVAL, s, tr)"
    "removeUsers x uidRanges subPriority s tr = (- EINVAL, s, tr)"
    if "\<not> isValidSubPriority x subPriority"
    using that by (simp_all add: addUsers_def removeUsers_def)
  have refused: "addUsers x uidRanges subPriority s tr = (- EINVAL, s, tr)"
    if "\<not> canAddUidRanges x (mUidRangeMap s) uidRanges"
    using that by (simp add: addUsers_def)
  have strong: "(addUsers x uidRanges subPriority s tr = (- EINVAL, s, tr)) =
      (\<not> canAddUidRanges x (mUidRangeMap s) uidRanges)"
    if valid: "isValidSubPriority x subPriority"
  proof
    assume "addUsers x uidRanges subPriority s tr = (- EINVAL, s, tr)"
    then have "fst (addUsers x uidRanges subPriority s tr) = - EINVAL \<and>
       snd (snd (addUsers x uidRanges subPriority s tr)) = tr"
      by simp
    with weak [OF valid] show "\<not> canAddUidRanges x (mUidRangeMap s) uidRanges"
      by simp
  next
    assume "\<not> canAddUidRanges x (mUidRangeMap s) uidRanges"
    then show "addUsers x uidRanges subPriority s tr = (- EINVAL, s, tr)"
      by (rule refused)
  qed
  have rem_iff: "(removeUsers x uidRanges subPriority s tr = (- EINVAL, s, tr)) =
     (\<not> isValidSubPriority x subPriority)"
  proof
    assume eq: "removeUsers x uidRanges subPriority s tr = (- EINVAL, s, tr)"
    show "\<not> isValidSubPriority x subPriority"
    proof
      assume "isValidSubPriority x subPriority"
      from rem_valid [OF this] eq show False
        by simp
    qed
  next
    assume "\<not> isValidSubPriority x subPriority"
    then show "removeUsers x uidRanges subPriority s tr = (- EINVAL, s, tr)"
      by (rule invalid(2))
  qed
  show ?thesis
  proof (intro conjI impI)
    show "isValidSubPriority x subPriority =
       ((sint (SUB_PRIORITY_HIGHEST x) \<le> sint subPriority \<and>
         sint subPriority \<le> sint (SUB_PRIORITY_LOWEST x)) \<or>
        subPriority = SUB_PRIORITY_NO_DEFAULT x)"
      by (simp add: isValidSubPriority_def)
  next
    assume "\<not> isValidSubPriority x subPriority"
    then show "addUsers x uidRanges subPriority s tr = (- EINVAL, s, tr)"
      "removeUsers x uidRanges subPriority s tr = (- EINVAL, s, tr)"
      by (rule invalid)+
  next
    assume valid: "isValidSubPriority x subPriority"
    show "\<not> (fst (removeUsers x uidRanges subPriority s tr) = - EINVAL \<and>
           snd (snd (removeUsers x uidRanges subPriority s tr)) = tr)"
      by (rule rem_valid [OF valid])
    show "(addUsers x uidRanges subPriority s tr = (- EINVAL, s, tr)) =
        (\<not> canAddUidRanges x (mUidRangeMap s) uidRanges)"
      by (rule strong [OF valid])
    show "(fst (addUsers x uidRanges subPriority s tr) = - EINVAL \<and>
         snd (snd (addUsers x uidRanges subPriority s tr)) = tr) =
        (\<not> canAddUidRanges x (mUidRangeMap s) uidRanges)"
      by (rule weak [OF valid])
  next
    show "(removeUsers x uidRanges subPriority s tr = (- EINVAL, s, tr)) =
       (\<not> isValidSubPriority x subPriority)"
      by (rule rem_iff)
  qed
qed

theorem invalid_sub_priority_is_rejected_witness:
  "addUsers allSucceed {(1000, 1999)} 1000 (sampleNetwork [''eth0''] PERMISSION_NONE False) [] =
     (- EINVAL, sampleNetwork [''eth0''] PERMISSION_NONE False, []) \<and>
   removeUsers allSucceed {(1000, 1999)} (- 1) (sampleNetwork [''eth0''] PERMISSION_NONE False) [] =
     (- EINVAL, sampleNetwork [''eth0''] PERMISSION_NONE False, []) \<and>
   \<not> (fst (removeUsers allSucceed {(1000, 1999)} 999
             (sampleNetwork [''eth0''] PERMISSION_NONE False) []) = - EINVAL \<and>
      snd (snd (removeUsers allSucceed {(1000, 1999)} 999
             (sampleNetwork [''eth0''] PERMISSION_NONE False) [])) = []) \<and>
   addUsers rejectRegistered {(1000, 1999)} 10
     ((sampleNetwork [''eth0''] PERMISSION_NONE False)\<lparr>mUidRangeMap := [10 \<mapsto> {(1000, 1999)}]\<rparr>) [] =
     (- EINVAL,
      (sampleNetwork [''eth0''] PERMISSION_NONE False)\<lparr>mUidRangeMap := [10 \<mapsto> {(1000, 1999)}]\<rparr>,
      []) \<and>
   removeUsers allSucceed {(1000, 1999)} 999 (sampleNetwork [''eth0''] PERMISSION_NONE False) [] \<noteq>
     (- EINVAL, sampleNetwork [''eth0''] PERMISSION_NONE False, [])"
proof -
  let ?s = "sampleNetwork [''eth0''] PERMISSION_NONE False"
  let ?s' = "?s\<lparr>mUidRangeMap := [10 \<mapsto> {(1000, 1999)}]\<rparr>"
  have "\<not> isValidSubPriority allSucceed 1000" "\<not> isValidSubPriority allSucceed (- 1)"
    "isValidSubPriority allSucceed 999" "isValidSubPriority rejectRegistered 10"
    by (simp_all add: isValidSubPriority_def allSucceed_def rejectRegistered_def sampleExternals_def)
  moreover have "\<not> canAddUidRanges rejectRegistered (mUidRangeMap ?s') {(1000, 1999)}"
    by (simp add: rejectRegistered_def sampleExternals_def sampleNetwork_def)
  ultimately show ?thesis
    using
      invalid_sub_priority_is_rejected [of allSucceed 1000 "{(1000, 1999)}" ?s "[]"]
      invalid_sub_priority_is_rejected [of allSucceed "- 1" "{(1000, 1999)}" ?s "[]"]
      invalid_sub_priority_is_rejected [of allSucceed 999 "{(1000, 1999)}" ?s "[]"]
      invalid_sub_priority_is_rejected [of rejectRegistered 10 "{(1000, 1999)}" ?s' "[]"]
    by simp
qed

section \<open>addInterface that fails\<close>

text \<open>
  C7. If a collaborator call made by \<^verbatim>\<open>addInterface\<close> returns a non-zero value
  (\<^verbatim>\<open>addInterfaceToPhysicalNetwork\<close>, or on a default network one of the two calls of
  \<^verbatim>\<open>addToDefault\<close>), then \<^verbatim>\<open>addInterface\<close> returns a non-zero value, the state is
  unchanged and the name is not in the set; and \<^verbatim>\<open>removeInterface\<close> with that name
  then returns 0, calls no collaborator (whatever the collaborators would answer) and
  leaves the state as it is.
\<close>

theorem addInterface_failure_leaves_no_member:
  assumes run: "addInterface x interface s tr = (ret, s', tr')"
    and failed: "\<exists>e\<in>set (drop (length tr) tr'). snd e \<noteq> 0"
  shows "ret \<noteq> 0 \<and> s' = s \<and> interface \<notin> set (mInterfaces s') \<and>
         removeInterface y interface s' tr' = (0, s', tr')"
proof -
  have absent: "interface \<notin> set (mInterfaces s)"
  proof
    assume "interface \<in> set (mInterfaces s)"
    with run have "tr' = tr"
      by (simp add: addInterface_def hasInterface_def)
    with failed show False
      by simp
  qed
  let ?add = "AddInterfaceToPhysicalNetwork (mNetId s) interface (mPermission s)
                (mUidRangeMap s) (mIsLocalNetwork s)"
  obtain r1 t1 where a: "invoke x ?add tr = (r1, t1)"
    by (cases "invoke x ?add tr")
  then have t1: "t1 = tr @ [(?add, r1)]"
    by (rule invoke_events)
  have "ret \<noteq> 0 \<and> s' = s"
  proof (cases "r1 = 0")
    case False
    with run a absent show ?thesis
      by (simp add: addInterface_def hasInterface_def)
  next
    case r1: True
    show ?thesis
    proof (cases "mIsDefault s")
      case False
      with run a absent r1 t1 have "tr' = tr @ [(?add, 0)]"
        by (simp add: addInterface_def hasInterface_def)
      with failed show ?thesis
        by simp
    next
      case True
      obtain r2 t2 where b: "addToDefault x (mNetId s) interface (mPermission s) t1 = (r2, t2)"
        by (cases "addToDefault x (mNetId s) interface (mPermission s) t1")
      from addToDefault_events [OF b] obtain ev2 where ev2: "t2 = t1 @ ev2"
        "r2 = 0 \<longrightarrow> (\<forall>e\<in>set ev2. snd e = 0)"
        by (auto split: if_splits)
      from run a b absent r1 True have res: "ret = r2" "tr' = t2" "r2 \<noteq> 0 \<longrightarrow> s' = s"
        by (simp_all add: addInterface_def hasInterface_def split: if_splits)
      from res(2) ev2(1) t1 r1 have "drop (length tr) tr' = (?add, 0) # ev2"
        by simp
      with failed ev2(2) have "r2 \<noteq> 0"
        by auto
      with res show ?thesis
        by simp
    qed
  qed
  with absent show ?thesis
    by (simp add: removeInterface_def hasInterface_def)
qed

theorem addInterface_failure_leaves_no_member_witness:
  "fst (addInterface allFail ''wlan0'' (sampleNetwork [''eth0''] PERMISSION_NONE False) []) \<noteq> 0 \<and>
   ''wlan0'' \<notin> set (mInterfaces (fst (snd
      (addInterface allFail ''wlan0'' (sampleNetwork [''eth0''] PERMISSION_NONE False) [])))) \<and>
   removeInterface allSucceed ''wlan0'' (sampleNetwork [''eth0''] PERMISSION_NONE False)
     [(AddInterfaceToPhysicalNetwork 100 ''wlan0'' PERMISSION_NONE Map.empty False, - 1)] =
     (0, sampleNetwork [''eth0''] PERMISSION_NONE False,
      [(AddInterfaceToPhysicalNetwork 100 ''wlan0'' PERMISSION_NONE Map.empty False, - 1)]) \<and>
   removeInterface allSucceed ''wlan0'' (sampleNetwork [''eth0''] PERMISSION_NONE True)
     [(AddInterfaceToPhysicalNetwork 100 ''wlan0'' PERMISSION_NONE Map.empty False, 0),
      (AddInterfaceToDefaultNetwork ''wlan0'' PERMISSION_NONE, 0),
      (AddFallthrough ''wlan0'' PERMISSION_NONE, - 1)] =
     (0, sampleNetwork [''eth0''] PERMISSION_NONE True,
      [(AddInterfaceToPhysicalNetwork 100 ''wlan0'' PERMISSION_NONE Map.empty False, 0),
       (AddInterfaceToDefaultNetwork ''wlan0'' PERMISSION_NONE, 0),
       (AddFallthrough ''wlan0'' PERMISSION_NONE, - 1)])"
proof -
  let ?s = "sampleNetwork [''eth0''] PERMISSION_NONE False"
  let ?d = "sampleNetwork [''eth0''] PERMISSION_NONE True"
  let ?tr = "[(AddInterfaceToPhysicalNetwork 100 ''wlan0'' PERMISSION_NONE Map.empty False, - 1 :: int)]"
  let ?trd = "[(AddInterfaceToPhysicalNetwork 100 ''wlan0'' PERMISSION_NONE Map.empty False, 0 :: int),
      (AddInterfaceToDefaultNetwork ''wlan0'' PERMISSION_NONE, 0),
      (AddFallthrough ''wlan0'' PERMISSION_NONE, - 1)]"
  have run: "addInterface allFail ''wlan0'' ?s [] = (- 1, ?s, ?tr)"
    by (simp add: addInterface_def hasInterface_def sampleNetwork_def allFail_def
        sampleExternals_def invoke_def)
  have failed: "\<exists>e\<in>set (drop (length []) ?tr). snd e \<noteq> 0"
    by simp
  have rund: "addInterface fallthroughFails ''wlan0'' ?d [] = (- 1, ?d, ?trd)"
    by (simp add: addInterface_def hasInterface_def sampleNetwork_def fallthroughFails_def
        sampleExternals_def invoke_def addToDefault_def)
  have failedd: "\<exists>e\<in>set (drop (length []) ?trd). snd e \<noteq> 0"
    by simp
  from addInterface_failure_leaves_no_member [OF run failed, of allSucceed]
    addInterface_failure_leaves_no_member [OF rund failedd, of allSucceed] run
  show ?thesis
    by simp
qed

section \<open>addAsDefault followed by removeAsDefault\<close>

text \<open>
  C8. On a network that is not the default, \<^verbatim>\<open>addAsDefault\<close> followed by
  \<^verbatim>\<open>removeAsDefault\<close>, when every collaborator call the two make returns 0: both return
  0; the calls are \<^verbatim>\<open>addInterfaceToDefaultNetwork\<close> and \<^verbatim>\<open>addFallthrough\<close> for every
  interface, then \<^verbatim>\<open>removeInterfaceFromDefaultNetwork\<close> and \<^verbatim>\<open>removeFallthrough\<close> for
  every interface, all at the current permission; so the calls to the delegate are
  \<^verbatim>\<open>addFallthrough\<close> for every interface followed by \<^verbatim>\<open>removeFallthrough\<close> for every
  interface; the network is the default in between, and at the end the state is the
  one before the pair, with \<^verbatim>\<open>mIsDefault\<close> false.
\<close>

theorem default_toggle_calls:
  assumes nd: "\<not> mIsDefault s"
    and add: "addAsDefault x s tr = (r1, s1, tr1)"
    and rem: "removeAsDefault x s1 tr1 = (r2, s2, tr2)"
    and ok: "\<forall>e\<in>set (drop (length tr) tr2). snd e = 0"
  shows "r1 = 0 \<and> r2 = 0 \<and>
         map fst (drop (length tr) tr2) =
           concat (map (\<lambda>i. [AddInterfaceToDefaultNetwork i (mPermission s),
                              AddFallthrough i (mPermission s)]) (mInterfaces s)) @
           concat (map (\<lambda>i. [RemoveInterfaceFromDefaultNetwork i (mPermission s),
                              RemoveFallthrough i (mPermission s)]) (mInterfaces s)) \<and>
         filter isDelegateCall (map fst (drop (length tr) tr2)) =
           map (\<lambda>i. AddFallthrough i (mPermission s)) (mInterfaces s) @
           map (\<lambda>i. RemoveFallthrough i (mPermission s)) (mInterfaces s) \<and>
         mIsDefault s1 \<and> \<not> mIsDefault s2 \<and> s2 = s"
proof -
  let ?p = "mPermission s" and ?ifs = "mInterfaces s"
  let ?adds = "concat (map (\<lambda>i. [(AddInterfaceToDefaultNetwork i ?p, 0 :: int),
                                  (AddFallthrough i ?p, 0)]) ?ifs)"
  let ?rems = "concat (map (\<lambda>i. [(RemoveInterfaceFromDefaultNetwork i ?p, 0 :: int),
                                  (RemoveFallthrough i ?p, 0)]) ?ifs)"
  obtain ra ta where la: "forEachInterface (\<lambda>i. addToDefault x (mNetId s) i ?p) ?ifs tr = (ra, ta)"
    by (cases "forEachInterface (\<lambda>i. addToDefault x (mNetId s) i ?p) ?ifs tr")
  from addToDefault_loop [OF la] obtain ev1 where ev1: "ta = tr @ ev1"
    "ra \<noteq> 0 \<longrightarrow> ev1 \<noteq> [] \<and> snd (last ev1) = ra" "ra = 0 \<longrightarrow> ev1 = ?adds"
    by blast
  have ra: "ra = 0"
  proof (rule ccontr)
    assume bad: "ra \<noteq> 0"
    with add nd la have "s1 = s" "tr1 = ta"
      by (simp_all add: addAsDefault_def)
    with rem nd have "tr2 = ta"
      by (simp add: removeAsDefault_def)
    with ev1(1) have "drop (length tr) tr2 = ev1"
      by simp
    moreover from ev1(2) bad have "last ev1 \<in> set ev1" "snd (last ev1) \<noteq> 0"
      by simp_all
    ultimately show False
      using ok by auto
  qed
  with add nd la have s1: "r1 = 0" "s1 = s\<lparr>mIsDefault := True\<rparr>" "tr1 = ta"
    by (simp_all add: addAsDefault_def)
  obtain rb tb where lb: "forEachInterface (\<lambda>i. removeFromDefault x (mNetId s) i ?p) ?ifs ta = (rb, tb)"
    by (cases "forEachInterface (\<lambda>i. removeFromDefault x (mNetId s) i ?p) ?ifs ta")
  from removeFromDefault_loop [OF lb] obtain ev2 where ev2: "tb = ta @ ev2"
    "rb \<noteq> 0 \<longrightarrow> ev2 \<noteq> [] \<and> snd (last ev2) = rb" "rb = 0 \<longrightarrow> ev2 = ?rems"
    by blast
  from rem s1 lb have res: "r2 = rb" "tr2 = tb" "s2 = (if rb = 0 then s1\<lparr>mIsDefault := False\<rparr> else s1)"
    by (auto simp: removeAsDefault_def split: if_splits)
  from res(2) ev1(1) ev2(1) have new: "drop (length tr) tr2 = ev1 @ ev2"
    by simp
  have rb: "rb = 0"
  proof (rule ccontr)
    assume bad: "rb \<noteq> 0"
    with ev2(2) have "last ev2 \<in> set (ev1 @ ev2)" "snd (last ev2) \<noteq> 0"
      by simp_all
    with ok new show False
      by auto
  qed
  from ra rb ev1(3) ev2(3) new have "drop (length tr) tr2 = ?adds @ ?rems"
    by simp
  then have calls: "map fst (drop (length tr) tr2) =
      concat (map (\<lambda>i. [AddInterfaceToDefaultNetwork i ?p, AddFallthrough i ?p]) ?ifs) @
      concat (map (\<lambda>i. [RemoveInterfaceFromDefaultNetwork i ?p, RemoveFallthrough i ?p]) ?ifs)"
    by (simp add: map_concat comp_def)
  from res(3) rb s1(2) nd have "s2 = s"
    by (cases s) simp
  with calls s1 res(1) rb nd show ?thesis
    by (simp add: delegate_calls_of_toggle)
qed

theorem default_toggle_calls_witness:
  "map fst (snd (snd (removeAsDefault allSucceed
      (fst (snd (addAsDefault allSucceed (sampleNetwork [''eth0'', ''wlan0''] PERMISSION_NETWORK False) [])))
      (snd (snd (addAsDefault allSucceed (sampleNetwork [''eth0'', ''wlan0''] PERMISSION_NETWORK False) [])))))) =
     [AddInterfaceToDefaultNetwork ''eth0'' PERMISSION_NETWORK, AddFallthrough ''eth0'' PERMISSION_NETWORK,
      AddInterfaceToDefaultNetwork ''wlan0'' PERMISSION_NETWORK, AddFallthrough ''wlan0'' PERMISSION_NETWORK,
      RemoveInterfaceFromDefaultNetwork ''eth0'' PERMISSION_NETWORK, RemoveFallthrough ''eth0'' PERMISSION_NETWORK,
      RemoveInterfaceFromDefaultNetwork ''wlan0'' PERMISSION_NETWORK, RemoveFallthrough ''wlan0'' PERMISSION_NETWORK] \<and>
   fst (snd (removeAsDefault allSucceed
      (fst (snd (addAsDefault allSucceed (sampleNetwork [''eth0'', ''wlan0''] PERMISSION_NETWORK False) [])))
      (snd (snd (addAsDefault allSucceed (sampleNetwork [''eth0'', ''wlan0''] PERMISSION_NETWORK False) []))))) =
     sampleNetwork [''eth0'', ''wlan0''] PERMISSION_NETWORK False"
proof -
  let ?s = "sampleNetwork [''eth0'', ''wlan0''] PERMISSION_NETWORK False"
  have nd: "\<not> mIsDefault ?s"
    by (simp add: sampleNetwork_def)
  obtain s1 tr1 where add: "addAsDefault allSucceed ?s [] = (0, s1, tr1)"
    by (simp add: addAsDefault_def sampleNetwork_def allSucceed_def sampleExternals_def
        addToDefault_def invoke_def)
  have rem: "removeAsDefault allSucceed s1 tr1 =
      (0, ?s,
       [(AddInterfaceToDefaultNetwork ''eth0'' PERMISSION_NETWORK, 0),
        (AddFallthrough ''eth0'' PERMISSION_NETWORK, 0),
        (AddInterfaceToDefaultNetwork ''wlan0'' PERMISSION_NETWORK, 0),
        (AddFallthrough ''wlan0'' PERMISSION_NETWORK, 0),
        (RemoveInterfaceFromDefaultNetwork ''eth0'' PERMISSION_NETWORK, 0),
        (RemoveFallthrough ''eth0'' PERMISSION_NETWORK, 0),
        (RemoveInterfaceFromDefaultNetwork ''wlan0'' PERMISSION_NETWORK, 0),
        (RemoveFallthrough ''wlan0'' PERMISSION_NETWORK, 0)])"
    using add
    by (auto simp: addAsDefault_def removeAsDefault_def sampleNetwork_def allSucceed_def
        sampleExternals_def addToDefault_def removeFromDefault_def invoke_def)
  from default_toggle_calls [OF nd add rem] add rem show ?thesis
    by (simp add: sampleNetwork_def)
qed

section \<open>Idempotent calls\<close>

text \<open>
  C9. In every state, \<^verbatim>\<open>setPermission\<close> with the current permission,
  \<^verbatim>\<open>addAsDefault\<close> on a default network, \<^verbatim>\<open>removeAsDefault\<close> on a network that is not
  the default, \<^verbatim>\<open>addInterface\<close> with a name already attached and \<^verbatim>\<open>removeInterface\<close>
  with a name that is not attached return 0, call no collaborator (the log is the one
  they were given) and return the state, all fields of it, as it was.
\<close>

theorem idempotent_calls_are_noops:
  "(permission = mPermission s \<longrightarrow> setPermission x permission s tr = (0, s, tr)) \<and>
   (mIsDefault s \<longrightarrow> addAsDefault x s tr = (0, s, tr)) \<and>
   (\<not> mIsDefault s \<longrightarrow> removeAsDefault x s tr = (0, s, tr)) \<and>
   (interface \<in> set (mInterfaces s) \<longrightarrow> addInterface x interface s tr = (0, s, tr)) \<and>
   (interface \<notin> set (mInterfaces s) \<longrightarrow> removeInterface x interface s tr = (0, s, tr))"
  by (simp add: setPermission_def addAsDefault_def removeAsDefault_def addInterface_def
      removeInterface_def hasInterface_def)

theorem idempotent_calls_are_noops_witness:
  "setPermission allFail PERMISSION_NETWORK (sampleNetwork [''eth0''] PERMISSION_NETWORK False) [] =
     (0, sampleNetwork [''eth0''] PERMISSION_NETWORK False, []) \<and>
   addAsDefault allFail (sampleNetwork [''eth0''] PERMISSION_NETWORK True) [] =
     (0, sampleNetwork [''eth0''] PERMISSION_NETWORK True, []) \<and>
   removeAsDefault allFail (sampleNetwork [''eth0''] PERMISSION_NETWORK False) [] =
     (0, sampleNetwork [''eth0''] PERMISSION_NETWORK False, []) \<and>
   addInterface allFail ''eth0'' (sampleNetwork [''eth0''] PERMISSION_NETWORK False) [] =
     (0, sampleNetwork [''eth0''] PERMISSION_NETWORK False, []) \<and>
   removeInterface allFail ''wlan0'' (sampleNetwork [''eth0''] PERMISSION_NETWORK False) [] =
     (0, sampleNetwork [''eth0''] PERMISSION_NETWORK False, [])"
  using
    idempotent_calls_are_noops [where permission = PERMISSION_NETWORK and x = allFail
      and s = "sampleNetwork [''eth0''] PERMISSION_NETWORK False" and tr = "[]"
      and interface = "''eth0''"]
    idempotent_calls_are_noops [where x = allFail
      and s = "sampleNetwork [''eth0''] PERMISSION_NETWORK True" and tr = "[]"]
    idempotent_calls_are_noops [where x = allFail
      and s = "sampleNetwork [''eth0''] PERMISSION_NETWORK False" and tr = "[]"
      and interface = "''wlan0''"]
  by (simp add: sampleNetwork_def)

section \<open>A target of no permission\<close>

text \<open>
  C10. With the target \<^verbatim>\<open>PERMISSION_NONE\<close>, \<^verbatim>\<open>destroySocketsLackingPermission\<close> returns
  0 and calls nothing (the log is unchanged), and no event that \<^verbatim>\<open>setPermission\<close> adds
  to the log is a call to the socket diagnostics, in either pass.
\<close>

theorem permission_none_skips_sockdiag:
  "destroySocketsLackingPermission x s PERMISSION_NONE tr = (0, tr) \<and>
   (\<exists>ev. snd (snd (setPermission x PERMISSION_NONE s tr)) = tr @ ev \<and>
         (\<forall>e\<in>set ev. \<not> isSockDiagCall (fst e)))"
proof
  show "destroySocketsLackingPermission x s PERMISSION_NONE tr = (0, tr)"
    by (simp add: destroySocketsLackingPermission_def)
next
  obtain ret s' tr' where run: "setPermission x PERMISSION_NONE s tr = (ret, s', tr')"
    by (cases "setPermission x PERMISSION_NONE s tr")
  show "\<exists>ev. snd (snd (setPermission x PERMISSION_NONE s tr)) = tr @ ev \<and>
         (\<forall>e\<in>set ev. \<not> isSockDiagCall (fst e))"
  proof (cases "PERMISSION_NONE = mPermission s \<or> mInterfaces s = []")
    case True
    then have "snd (snd (setPermission x PERMISSION_NONE s tr)) = tr @ []"
      by (auto simp: setPermission_def)
    then show ?thesis
      by (intro exI [of _ "[]"]) simp
  next
    case False
    then have "PERMISSION_NONE \<noteq> mPermission s" "mInterfaces s \<noteq> []"
      by simp_all
    then show ?thesis
      using run
    proof (cases rule: setPermission_cases)
      case (events sd1 r0 m d sd2)
      let ?ev = "(ModifyPhysicalNetworkPermission (mNetId s) (hd (mInterfaces s))
                (mPermission s) PERMISSION_NONE (mIsLocalNetwork s), r0) # m @ d"
      from events(2,4) have "tr' = tr @ ?ev"
        by simp
      moreover from events(5,6) have "\<forall>e\<in>set ?ev. \<not> isSockDiagCall (fst e)"
        by auto
      ultimately show ?thesis
        using run by (metis snd_conv)
    qed
  qed
qed

theorem permission_none_skips_sockdiag_witness:
  "destroySocketsLackingPermission allSucceed (sampleNetwork [''eth0''] PERMISSION_SYSTEM True)
     PERMISSION_NONE [] = (0, []) \<and>
   filter (\<lambda>e. isSockDiagCall (fst e))
     (snd (snd (setPermission allSucceed PERMISSION_NONE
        (sampleNetwork [''eth0''] PERMISSION_SYSTEM True) []))) = [] \<and>
   length (snd (snd (setPermission allSucceed PERMISSION_NONE
        (sampleNetwork [''eth0''] PERMISSION_SYSTEM True) []))) = 9"
proof -
  have "length (snd (snd (setPermission allSucceed PERMISSION_NONE
        (sampleNetwork [''eth0''] PERMISSION_SYSTEM True) []))) = 9"
    by (simp add: setPermission_def sampleNetwork_def allSucceed_def sampleExternals_def
        destroySocketsLackingPermission_def setPermission_modify_def setPermission_default_def
        addToDefault_def removeFromDefault_def invoke_def invalidateRouteCache_def
        invalidateRouteCache_dst_def)
  with permission_none_skips_sockdiag [of allSucceed "sampleNetwork [''eth0''] PERMISSION_SYSTEM True" "[]"]
  show ?thesis
    by (auto simp: filter_empty_conv)
qed

end
